theory Spec2Isabelle
  imports Complex_Main
begin

section \<open>Conventions\<close>

text \<open>
  The development embeds the scheduling core of the agent system: \<open>agents/Health.py\<close>,
  \<open>BaseAgent.py\<close>, \<open>core/delegation_tree.py\<close>, \<open>core/orchestrator.py\<close> and
  \<open>core/command_center.py\<close>.

  \<^item> Python \<open>int\<close> is \<open>int\<close>; Python \<open>float\<close> is \<open>pyfloat\<close>, the binary64 numbers
    with their rounding, infinities and NaN.
  \<^item> An exception is a value of type \<open>exn\<close>; a function that can raise returns
    \<open>exn + 'a\<close>, with \<open>Inl\<close> for the raise.
  \<^item> \<open>datetime.now()\<close> is an argument \<open>now\<close> of the operation that reads the clock.
  \<^item> Locks and the logger of \<open>utils/logger.py\<close> have no effect on the state and are left out.
\<close>

datatype exn =
    IndexError
  | ZeroDivisionError
  | OverflowError
  | RecursionError
  | TypeError
  | ValueError string
  | NotImplementedError string
  | TaskExecutionError string
  | AccessDeniedError string
  | DataIntegrityError string

section \<open>Floating-point numbers\<close>

text \<open>
  A Python \<open>float\<close> is an IEEE 754 binary64 number: a finite value, an infinity or NaN.
  A finite value is carried as the real number it stands for; the two zeros are one value,
  since no operation of the sources tells them apart (a division by either raises).

  Every arithmetic operation returns the exact result rounded to the nearest
  representable number, ties to the even significand. \<open>binade x\<close> is the exponent \<open>e\<close>
  with \<open>2^e \<le> |x| < 2^(e+1)\<close>, not below the least normal exponent \<open>-1022\<close>; the
  representable numbers around \<open>x\<close> are the multiples of \<open>2^(e-52)\<close>; a result whose
  rounded magnitude reaches \<open>2^1024\<close> is an infinity.
\<close>

datatype pyfloat = Finite real | PosInf | NegInf | NaN

definition pow2 :: "int \<Rightarrow> real" where
  "pow2 e = (if 0 \<le> e then 2 ^ nat e else 1 / 2 ^ nat (- e))"

definition round_even :: "real \<Rightarrow> int" where
  "round_even y =
     (let n = \<lfloor>y\<rfloor> in
      if y - of_int n < 1 / 2 then n
      else if 1 / 2 < y - of_int n then n + 1
      else if even n then n else n + 1)"

definition binade :: "real \<Rightarrow> int" where
  "binade x = max \<lfloor>log 2 \<bar>x\<bar>\<rfloor> (- 1022)"

definition fl :: "real \<Rightarrow> pyfloat" where
  "fl x =
     (if x = 0 then Finite 0
      else
        let ulp = pow2 (binade x - 52);
            r = of_int (round_even (x / ulp)) * ulp
        in if 2 ^ 1024 \<le> \<bar>r\<bar> then (if 0 < x then PosInf else NegInf) else Finite r)"

fun fneg :: "pyfloat \<Rightarrow> pyfloat" where
  "fneg (Finite x) = Finite (- x)"
| "fneg PosInf = NegInf"
| "fneg NegInf = PosInf"
| "fneg NaN = NaN"

fun fadd :: "pyfloat \<Rightarrow> pyfloat \<Rightarrow> pyfloat" where
  "fadd (Finite x) (Finite y) = fl (x + y)"
| "fadd NaN b = NaN"
| "fadd a NaN = NaN"
| "fadd PosInf NegInf = NaN"
| "fadd NegInf PosInf = NaN"
| "fadd PosInf b = PosInf"
| "fadd NegInf b = NegInf"
| "fadd (Finite x) b = b"

definition fsub :: "pyfloat \<Rightarrow> pyfloat \<Rightarrow> pyfloat" where
  "fsub a b = fadd a (fneg b)"

fun fmul :: "pyfloat \<Rightarrow> pyfloat \<Rightarrow> pyfloat" where
  "fmul (Finite x) (Finite y) = fl (x * y)"
| "fmul NaN b = NaN"
| "fmul a NaN = NaN"
| "fmul (Finite x) PosInf = (if x = 0 then NaN else if 0 < x then PosInf else NegInf)"
| "fmul (Finite x) NegInf = (if x = 0 then NaN else if 0 < x then NegInf else PosInf)"
| "fmul PosInf (Finite y) = (if y = 0 then NaN else if 0 < y then PosInf else NegInf)"
| "fmul NegInf (Finite y) = (if y = 0 then NaN else if 0 < y then NegInf else PosInf)"
| "fmul PosInf PosInf = PosInf"
| "fmul NegInf NegInf = PosInf"
| "fmul PosInf NegInf = NegInf"
| "fmul NegInf PosInf = NegInf"

fun fdiv :: "pyfloat \<Rightarrow> pyfloat \<Rightarrow> exn + pyfloat" where
  \<comment> \<open>\<open>a / b\<close> on floats raises for a zero divisor, whatever the dividend\<close>
  "fdiv a (Finite y) =
     (if y = 0 then Inl ZeroDivisionError
      else
        (case a of
           Finite x \<Rightarrow> Inr (fl (x / y))
         | PosInf \<Rightarrow> Inr (if 0 < y then PosInf else NegInf)
         | NegInf \<Rightarrow> Inr (if 0 < y then NegInf else PosInf)
         | NaN \<Rightarrow> Inr NaN))"
| "fdiv a NaN = Inr NaN"
| "fdiv (Finite x) b = Inr (Finite 0)"
| "fdiv NaN b = Inr NaN"
| "fdiv a b = Inr NaN"

fun fgt :: "pyfloat \<Rightarrow> pyfloat \<Rightarrow> bool" where
  \<comment> \<open>\<open>a > b\<close>; every comparison with NaN is false\<close>
  "fgt (Finite x) (Finite y) = (x > y)"
| "fgt NaN b = False"
| "fgt a NaN = False"
| "fgt a PosInf = False"
| "fgt PosInf b = True"
| "fgt NegInf b = False"
| "fgt (Finite x) NegInf = True"

definition float_of_int :: "int \<Rightarrow> exn + pyfloat" where
  \<comment> \<open>the conversion of an \<open>int\<close> operand in mixed arithmetic; it raises where the
      integer is beyond the floats\<close>
  "float_of_int i =
     (case fl (real_of_int i) of Finite r \<Rightarrow> Inr (Finite r) | _ \<Rightarrow> Inl OverflowError)"

definition int_truediv :: "int \<Rightarrow> int \<Rightarrow> exn + pyfloat" where
  \<comment> \<open>\<open>a / b\<close> on two \<open>int\<close>s: the quotient of the integers, rounded once\<close>
  "int_truediv a b =
     (if b = 0 then Inl ZeroDivisionError
      else
        (case fl (real_of_int a / real_of_int b) of
           Finite r \<Rightarrow> Inr (Finite r)
         | _ \<Rightarrow> Inl OverflowError))"

definition tenth :: pyfloat where
  \<comment> \<open>the literal \<open>0.1\<close>\<close>
  "tenth = fl (1 / 10)"

section \<open>HealthHistory (\<open>agents/Health.py\<close>)\<close>

text \<open>
  \<open>health_scores\<close> is a \<open>deque\<close> with a \<open>maxlen\<close>: the oldest sample is first, and
  appending to a full deque drops the oldest sample.
\<close>

record HealthHistory =
  health_scores :: "pyfloat list"
  maxlen :: nat

definition deque :: "'a list \<Rightarrow> nat \<Rightarrow> 'a list" where
  \<comment> \<open>\<open>deque(iterable, maxlen=n)\<close> keeps the last \<open>n\<close> items.\<close>
  "deque xs n = drop (length xs - n) xs"

definition HealthHistory_init :: "nat \<Rightarrow> pyfloat \<Rightarrow> HealthHistory" where
  "HealthHistory_init window_size initial_health =
     \<lparr>health_scores = deque (replicate window_size initial_health) window_size,
      maxlen = window_size\<rparr>"

definition HealthHistory_default :: HealthHistory where
  \<comment> \<open>\<open>HealthHistory()\<close>: \<open>window_size=10\<close>, \<open>initial_health=1.0\<close>\<close>
  "HealthHistory_default = HealthHistory_init 10 (Finite 1)"


definition get_average :: "(pyfloat list \<Rightarrow> pyfloat) \<Rightarrow> HealthHistory \<Rightarrow> exn + pyfloat" where
  \<comment> \<open>\<open>sum(scores) / len(scores)\<close>. \<open>fsum\<close> is the builtin \<open>sum\<close> on the samples: the
      order and compensation of its additions differ between versions of the interpreter
      and are left to the argument.\<close>
  "get_average fsum h =
     (let total = fsum (health_scores h) in
      case float_of_int (int (length (health_scores h))) of
        Inl e \<Rightarrow> Inl e
      | Inr n \<Rightarrow> fdiv total n)"

definition ewma_step :: "pyfloat \<Rightarrow> pyfloat \<Rightarrow> pyfloat \<Rightarrow> pyfloat" where
  \<comment> \<open>\<open>alpha * score + (1 - alpha) * ewma\<close>\<close>
  "ewma_step alpha ewma score =
     fadd (fmul alpha score) (fmul (fsub (Finite 1) alpha) ewma)"

fun ewma_loop :: "pyfloat \<Rightarrow> pyfloat \<Rightarrow> pyfloat list \<Rightarrow> pyfloat" where
  \<comment> \<open>\<open>for score in scores: ewma = alpha * score + (1 - alpha) * ewma\<close>\<close>
  "ewma_loop alpha ewma [] = ewma"
| "ewma_loop alpha ewma (score # scores) =
     ewma_loop alpha (ewma_step alpha ewma score) scores"

definition get_ewma :: "pyfloat \<Rightarrow> HealthHistory \<Rightarrow> exn + pyfloat" where
  \<comment> \<open>\<open>ewma = self.health_scores[0]\<close> raises on an empty deque; the loop then runs over
      every sample, the first one included.\<close>
  "get_ewma alpha h =
     (case health_scores h of
        [] \<Rightarrow> Inl IndexError
      | first # _ \<Rightarrow> Inr (ewma_loop alpha first (health_scores h)))"


section \<open>Task\<close>

text \<open>
  Modelled from the spec: the class \<open>Task\<close> of \<open>core/task.py\<close>, which every module
  imports and which is not among the sources. The attributes are those the specification
  lists (its \<open>id\<close> and \<open>type\<close> are \<open>task_id\<close> and \<open>task_type\<close> here), and the operations
  are the total functions it describes: \<open>update_status\<close> is an unconditional write,
  \<open>can_retry\<close> is \<open>attempt_count < max_retries\<close>, \<open>is_overdue\<close> is "deadline set and
  now past it", and \<open>to_dict\<close>/\<open>from_dict\<close> round-trip every attribute, so that the
  dictionary of a task is read as the task's own attribute values.

  A task is carried by value: where Python shares one object between the delegation tree
  and a queue, each holder here has its own copy, and an operation that mutates a task
  returns the mutated value.
\<close>

type_synonym pyval = string

record Task =
  task_id :: string
  task_type :: string
  details :: "(string \<times> pyval) list"
  priority :: int
  deadline :: "int option"
  status :: string
  attempt_count :: int
  max_retries :: int
  result :: "pyval option"
  error :: "string option"
  parent_id :: "string option"
  children :: "string list"
  assigned_to :: "string option"

fun str_exn :: "exn \<Rightarrow> string" where
  "str_exn (NotImplementedError m) = m"
| "str_exn (TaskExecutionError m) = m"
| "str_exn (AccessDeniedError m) = m"
| "str_exn (DataIntegrityError m) = m"
| "str_exn (ValueError m) = m"
| "str_exn IndexError = ''index out of range''"
| "str_exn ZeroDivisionError = ''division by zero''"
| "str_exn OverflowError = ''int too large to convert to float''"
| "str_exn RecursionError = ''maximum recursion depth exceeded''"
| "str_exn TypeError = ''unsupported operand''"

definition update_status :: "Task \<Rightarrow> string \<Rightarrow> Task" where
  "update_status task new_status = task\<lparr>status := new_status\<rparr>"

definition increment_attempt :: "Task \<Rightarrow> Task" where
  "increment_attempt task = task\<lparr>attempt_count := attempt_count task + 1\<rparr>"

definition can_retry :: "Task \<Rightarrow> bool" where
  "can_retry task = (attempt_count task < max_retries task)"

definition set_result :: "Task \<Rightarrow> pyval \<Rightarrow> Task" where
  "set_result task v = task\<lparr>result := Some v, error := None\<rparr>"

definition set_error :: "Task \<Rightarrow> exn \<Rightarrow> Task" where
  "set_error task e = task\<lparr>error := Some (str_exn e)\<rparr>"

definition add_child :: "Task \<Rightarrow> string \<Rightarrow> Task" where
  \<comment> \<open>\<open>children\<close> is an ordered set of ids.\<close>
  "add_child task child_id =
     (if child_id \<in> set (children task) then task
      else task\<lparr>children := children task @ [child_id]\<rparr>)"

definition is_overdue :: "int \<Rightarrow> Task \<Rightarrow> bool" where
  "is_overdue now task = (case deadline task of None \<Rightarrow> False | Some d \<Rightarrow> now > d)"

definition Task_init ::
  "string \<Rightarrow> string \<Rightarrow> (string \<times> pyval) list \<Rightarrow> int \<Rightarrow> int option \<Rightarrow> Task" where
  \<comment> \<open>\<open>Task(task_type, details, priority, deadline)\<close> with \<open>max_retries = 3\<close>; \<open>uuid\<close> is the
      fresh id\<close>
  "Task_init uuid task_type' details' priority' deadline' =
     \<lparr>task_id = uuid, task_type = task_type', details = details', priority = priority',
      deadline = deadline', status = ''pending'', attempt_count = 0, max_retries = 3,
      result = None, error = None, parent_id = None, children = [], assigned_to = None\<rparr>"

type_synonym task_dict = Task

definition Task_to_dict :: "Task \<Rightarrow> task_dict" where
  "Task_to_dict task = task"

definition Task_from_dict :: "task_dict \<Rightarrow> Task" where
  "Task_from_dict data = data"

section \<open>The priority queue\<close>

text \<open>
  \<open>queue.PriorityQueue\<close> hands out a least entry under Python's tuple order. The entries
  are pairs of an integer key and a task, kept here in arrival order; \<open>pq_get\<close> removes
  the entry with the least key.

  Modelled from the spec: the order among entries of equal key. Python compares the tasks
  themselves there, with a comparison that \<open>core/task.py\<close> would define; the
  specification says that equal keys leave in arrival order, and \<open>pq_get\<close> takes the
  earliest entry of least key.

  Where that comparison raises, the queue operation raises with the heap already changed:
  \<open>put\<close> has appended the new entry before it compares, and \<open>get\<close> has taken the
  least entry out and dropped it. An agent uses its queue inside handlers that turn an
  exception into a return value, and whether an operation raises is an input of the agent
  operations below (\<open>put_raises\<close>, \<open>get_raises\<close>). The orchestrator uses its own
  queue outside any handler; there the operations are taken to succeed, as with the
  arrival order above.
\<close>

type_synonym pqueue = "(int \<times> Task) list"

definition pq_put :: "pqueue \<Rightarrow> int \<times> Task \<Rightarrow> pqueue" where
  "pq_put q item = q @ [item]"

fun pq_get :: "pqueue \<Rightarrow> ((int \<times> Task) \<times> pqueue) option" where
  "pq_get [] = None"
| "pq_get (item # q) =
     (case pq_get q of
        None \<Rightarrow> Some (item, [])
      | Some (least, rest) \<Rightarrow>
          if fst least < fst item then Some (least, item # rest) else Some (item, q))"

section \<open>BaseAgent (\<open>BaseAgent.py\<close>)\<close>

record log_entry =
  timestamp :: int
  entry_agent_id :: string
  agent_role :: string
  event :: string
  entry_task_id :: "string option"
  entry_details :: "string option"

type_synonym message = "(string \<times> pyval) list"

text \<open>
  \<open>capacity\<close> is the attribute that \<open>getattr(agent, 'capacity', 10)\<close> looks for: the
  base class does not set it (\<open>None\<close>), the subclass \<open>WebResearcher\<close> sets it to 5.
  The fields \<open>agent_id\<close> and \<open>agent_status\<close> are the source's \<open>id\<close> and \<open>status\<close>.
\<close>

record BaseAgent =
  agent_id :: string
  role :: string
  skills :: "string list"
  audit_log :: "log_entry list"
  workload :: int
  communication_channel :: "string \<rightharpoonup> message"
  priority_queue :: pqueue
  access_level :: int
  created_at :: int
  last_active :: int
  agent_status :: string
  error_count :: int
  health_history :: HealthHistory
  capacity :: "int option"

text \<open>
  Agents are objects that the registry, the orchestrator and other agents share, so they
  live in a store: \<open>heap\<close> maps the address of an agent object to its state, and
  \<open>registered\<close> lists, in insertion order, the keys of the dictionary
  \<open>AgentRegistry.agents\<close>. An agent is addressed by the key under which the registry
  holds it (its id, for an agent added by \<open>register\<close>); an agent that is not registered
  is in \<open>heap\<close> only. A method of the agent at address \<open>self\<close> takes the store and
  \<open>self\<close>; for an address without an object there is no call to model, and the store
  is left as it is.
\<close>

record AgentSystem =
  heap :: "string \<rightharpoonup> BaseAgent"
  registered :: "string list"

definition get_agent :: "AgentSystem \<Rightarrow> string \<Rightarrow> BaseAgent option" where
  "get_agent sys aid = (if aid \<in> set (registered sys) then heap sys aid else None)"

definition get_all_agents :: "AgentSystem \<Rightarrow> (string \<times> BaseAgent) list" where
  \<comment> \<open>the snapshot \<open>agents.copy()\<close>, in the dictionary's insertion order\<close>
  "get_all_agents sys =
     List.map_filter (\<lambda>aid. map_option (Pair aid) (heap sys aid)) (registered sys)"

definition store :: "AgentSystem \<Rightarrow> string \<Rightarrow> BaseAgent \<Rightarrow> AgentSystem" where
  "store sys self a = sys\<lparr>heap := (heap sys)(self \<mapsto> a)\<rparr>"

definition BaseAgent_init :: "string \<Rightarrow> int \<Rightarrow> string \<Rightarrow> string list \<Rightarrow> int \<Rightarrow> BaseAgent" where
  \<comment> \<open>\<open>__init__(role, skills, access_level)\<close>; \<open>uuid\<close> is the fresh \<open>uuid4\<close>.\<close>
  "BaseAgent_init uuid now role' skills' access_level' =
     \<lparr>agent_id = uuid, role = role', skills = skills', audit_log = [], workload = 0,
      communication_channel = Map.empty, priority_queue = [], access_level = access_level',
      created_at = now, last_active = now, agent_status = ''ready'', error_count = 0,
      health_history = HealthHistory_default, capacity = None\<rparr>"

definition log_activity ::
  "BaseAgent \<Rightarrow> string \<Rightarrow> string option \<Rightarrow> string option \<Rightarrow> int \<Rightarrow> BaseAgent" where
  "log_activity a ev tid dets now =
     a\<lparr>audit_log := audit_log a @
        [\<lparr>timestamp = now, entry_agent_id = agent_id a, agent_role = role a, event = ev,
          entry_task_id = tid, entry_details = dets\<rparr>]\<rparr>"

text \<open>
  \<open>receive_task\<close> runs in a \<open>try\<close> whose handler returns \<open>False\<close>. The statement of
  the block that can raise is the insertion into the queue; whether it does is the input
  \<open>put_raises\<close>. The assignment of \<open>assigned_to\<close> comes before it and stays, and so
  does the entry that the insertion has appended.
\<close>

definition receive_task ::
  "bool \<Rightarrow> int \<Rightarrow> AgentSystem \<Rightarrow> string \<Rightarrow> Task \<Rightarrow> bool \<times> AgentSystem \<times> Task" where
  "receive_task put_raises now sys self task =
     (case heap sys self of
        None \<Rightarrow> (False, sys, task)
      | Some a \<Rightarrow>
          let task1 = task\<lparr>assigned_to := Some (agent_id a)\<rparr>;
              a1 = a\<lparr>priority_queue := pq_put (priority_queue a) (- priority task1, task1)\<rparr>
          in
          if put_raises then (False, store sys self a1, task1)
          else
            let a2 = log_activity a1 ''TASK_RECEIVED'' (Some (task_id task1)) None now;
                a3 = a2\<lparr>workload := workload a2 + 1\<rparr>;
                a4 = a3\<lparr>last_active := now\<rparr>
            in (True, store sys self a4, task1))"

fun repr_items :: "message \<Rightarrow> string" where
  "repr_items [] = []"
| "repr_items [(k, v)] = [CHR 0x27] @ k @ [CHR 0x27] @ '': '' @ [CHR 0x27] @ v @ [CHR 0x27]"
| "repr_items ((k, v) # kvs) =
     [CHR 0x27] @ k @ [CHR 0x27] @ '': '' @ [CHR 0x27] @ v @ [CHR 0x27] @ '', '' @ repr_items kvs"

definition repr_message :: "message \<Rightarrow> string" where
  "repr_message m = ''{'' @ repr_items m @ ''}''"

text \<open>
  \<open>receive_message_try\<close> is the body of the \<open>try\<close> block of \<open>receive_message\<close>: it
  returns the state at the point where the block ends, with \<open>Inl\<close> when it ends in a
  raise. \<open>receive_message\<close> adds the handler \<open>except Exception: return False\<close>.
\<close>

definition receive_message_try ::
  "int \<Rightarrow> AgentSystem \<Rightarrow> string \<Rightarrow> string \<Rightarrow> message \<Rightarrow> (exn + bool) \<times> AgentSystem" where
  "receive_message_try now sys self sender_id msg =
     (case heap sys self of
        None \<Rightarrow> (Inr False, sys)
      | Some a \<Rightarrow>
          (case get_agent sys sender_id of
             None \<Rightarrow> (Inr False, sys)
           | Some sender \<Rightarrow>
               if access_level sender < access_level a then
                 (Inl (AccessDeniedError
                        (''Agent '' @ sender_id @ '' has insufficient access level'')),
                  store sys self
                    (log_activity a ''ACCESS_DENIED'' None
                       (Some (''From: '' @ sender_id @ '', Message: '' @ repr_message msg)) now))
               else
                 let a1 = a\<lparr>communication_channel := (communication_channel a)(sender_id \<mapsto> msg)\<rparr>;
                     a2 = log_activity a1 ''MESSAGE_RECEIVED'' (map_of msg ''task_id'')
                            (Some (''From: '' @ sender_id)) now;
                     a3 = a2\<lparr>last_active := now\<rparr>
                 in (Inr True, store sys self a3)))"

definition receive_message ::
  "int \<Rightarrow> AgentSystem \<Rightarrow> string \<Rightarrow> string \<Rightarrow> message \<Rightarrow> (exn + bool) \<times> AgentSystem" where
  "receive_message now sys self sender_id msg =
     (case receive_message_try now sys self sender_id msg of
        (Inl e, sys') \<Rightarrow> (Inr False, sys')
      | (Inr b, sys') \<Rightarrow> (Inr b, sys'))"

definition communicate_result ::
  "int \<Rightarrow> AgentSystem \<Rightarrow> string \<Rightarrow> Task \<Rightarrow> pyval \<Rightarrow> AgentSystem" where
  "communicate_result now sys self task res =
     (case heap sys self of
        None \<Rightarrow> sys
      | Some a \<Rightarrow>
          if children task = [] then sys
          else
            fold (\<lambda>child_id s.
                    case get_agent s child_id of
                      None \<Rightarrow> s
                    | Some child_agent \<Rightarrow>
                        snd (receive_message now s child_id (agent_id a)
                               [(''task_id'', task_id task), (''result'', res)]))
                 (children task) sys)"

text \<open>
  \<open>process_task\<close>: \<open>execute_task\<close> is the \<open>_execute_task\<close> of the agent's class
  (the base class raises \<open>NotImplementedError\<close>). \<open>get_raises\<close> and \<open>put_raises\<close>
  say whether the removal from and the re-insertion into the queue raise; either ends in
  the outer handler, which counts an error and returns \<open>None\<close>. The third component of
  the result is the task that was taken from the queue, as the call leaves it (none when
  the removal raised).
\<close>

definition process_task ::
  "(Task \<Rightarrow> exn + pyval) \<Rightarrow> bool \<Rightarrow> bool \<Rightarrow> int \<Rightarrow> AgentSystem \<Rightarrow> string
     \<Rightarrow> pyval option \<times> AgentSystem \<times> Task option" where
  "process_task execute_task get_raises put_raises now sys self =
     (case heap sys self of
        None \<Rightarrow> (None, sys, None)
      | Some a \<Rightarrow>
          (case pq_get (priority_queue a) of
             None \<Rightarrow> (None, sys, None)
           | Some ((_, task), rest) \<Rightarrow>
               if get_raises then
                 (None,
                  store sys self (a\<lparr>priority_queue := rest, error_count := error_count a + 1\<rparr>),
                  None)
               else
                 let a1 = a\<lparr>priority_queue := rest, workload := max 0 (workload a - 1)\<rparr>;
                     task1 = increment_attempt (update_status task ''in_progress'')
                 in
                 (case execute_task task1 of
                    Inr res \<Rightarrow>
                      let task2 = update_status (set_result task1 res) ''completed'';
                          a2 = log_activity a1 ''TASK_COMPLETED'' (Some (task_id task2)) None now;
                          sys1 = communicate_result now (store sys self a2) self task2 res;
                          sys2 = (case heap sys1 self of
                                    None \<Rightarrow> sys1
                                  | Some a3 \<Rightarrow> store sys1 self (a3\<lparr>last_active := now\<rparr>))
                      in (Some res, sys2, Some task2)
                  | Inl e \<Rightarrow>
                      let a2 = a1\<lparr>error_count := error_count a1 + 1\<rparr>;
                          task2 = set_error task1 e
                      in
                      if can_retry task2 then
                        let task3 = update_status task2 ''retry_pending'';
                            new_priority = max 1 (priority task3 - 1);
                            a3 = a2\<lparr>priority_queue :=
                                      pq_put (priority_queue a2) (- new_priority, task3)\<rparr>
                        in
                        if put_raises then
                          (None, store sys self (a3\<lparr>error_count := error_count a3 + 1\<rparr>),
                           Some task3)
                        else
                          let a4 = a3\<lparr>workload := workload a3 + 1\<rparr>;
                              a5 = log_activity a4 ''TASK_FAILED'' (Some (task_id task3))
                                     (Some (str_exn e)) now
                          in (None, store sys self a5, Some task3)
                      else
                        let task3 = update_status task2 ''failed'';
                            a3 = log_activity a2 ''TASK_FAILED'' (Some (task_id task3))
                                   (Some (str_exn e)) now
                        in (None, store sys self a3, Some task3))))"

definition reset :: "int \<Rightarrow> AgentSystem \<Rightarrow> string \<Rightarrow> bool \<times> AgentSystem" where
  "reset now sys self =
     (case heap sys self of
        None \<Rightarrow> (False, sys)
      | Some a \<Rightarrow>
          (True, store sys self
             (a\<lparr>audit_log := [], communication_channel := Map.empty, priority_queue := [],
                workload := 0, agent_status := ''ready'', error_count := 0,
                last_active := now\<rparr>)))"

text \<open>
  The dictionary that \<open>to_dict\<close> builds, one field per key. Times are written with
  \<open>isoformat\<close> and read back with \<open>fromisoformat\<close>, which returns the time that was
  written; both are the identity on the model's times.
\<close>

record agent_dict =
  d_id :: string
  d_role :: string
  d_skills :: "string list"
  d_audit_log :: "log_entry list"
  d_workload :: int
  d_communication_channel :: "string \<rightharpoonup> message"
  d_access_level :: int
  d_created_at :: int
  d_last_active :: int
  d_status :: string
  d_error_count :: int
  d_priority_queue_contents :: "(int \<times> task_dict) list"
  d_health_history :: "pyfloat list"

definition to_dict :: "BaseAgent \<Rightarrow> agent_dict" where
  "to_dict a =
     \<lparr>d_id = agent_id a, d_role = role a, d_skills = skills a, d_audit_log = audit_log a,
      d_workload = workload a, d_communication_channel = communication_channel a,
      d_access_level = access_level a, d_created_at = created_at a,
      d_last_active = last_active a, d_status = agent_status a,
      d_error_count = error_count a,
      d_priority_queue_contents =
        map (\<lambda>(prio, task). (- prio, Task_to_dict task)) (priority_queue a),
      d_health_history = health_scores (health_history a)\<rparr>"

definition from_dict :: "string \<Rightarrow> int \<Rightarrow> agent_dict \<Rightarrow> BaseAgent" where
  \<comment> \<open>\<open>uuid\<close> and \<open>now\<close> are what the constructor call \<open>cls(...)\<close> draws; both are
      overwritten from the dictionary.\<close>
  "from_dict uuid now data =
     (let agent = BaseAgent_init uuid now (d_role data) (d_skills data) (d_access_level data)
      in agent\<lparr>agent_id := d_id data, audit_log := d_audit_log data,
           workload := d_workload data,
           communication_channel := d_communication_channel data,
           created_at := d_created_at data, last_active := d_last_active data,
           agent_status := d_status data, error_count := d_error_count data,
           priority_queue :=
             foldl (\<lambda>q (prio, task_data). pq_put q (prio, Task_from_dict task_data))
               [] (d_priority_queue_contents data),
           health_history :=
             \<lparr>health_scores = deque (d_health_history data) (maxlen HealthHistory_default),
              maxlen = maxlen HealthHistory_default\<rparr>\<rparr>)"

subsection \<open>Sequences of operations\<close>

text \<open>
  The calls that change an agent's workload, each with the address of the agent it is made
  on, and the state after a sequence of them. \<open>execute_task\<close> gives every agent the
  \<open>_execute_task\<close> of its class; \<open>BaseAgent_execute_task\<close> is the one of the base class.
  \<open>workload_of\<close> reads the counter of the agent at an address.
\<close>

datatype agent_op = ReceiveTask bool int Task | ProcessTask bool bool int | Reset int

fun apply_op :: "(string \<Rightarrow> Task \<Rightarrow> exn + pyval) \<Rightarrow> AgentSystem \<Rightarrow> string \<times> agent_op \<Rightarrow> AgentSystem" where
  "apply_op execute_task sys (self, ReceiveTask put_raises now task) =
     fst (snd (receive_task put_raises now sys self task))"
| "apply_op execute_task sys (self, ProcessTask get_raises put_raises now) =
     fst (snd (process_task (execute_task self) get_raises put_raises now sys self))"
| "apply_op execute_task sys (self, Reset now) = snd (reset now sys self)"

definition run_ops :: "(string \<Rightarrow> Task \<Rightarrow> exn + pyval) \<Rightarrow> AgentSystem \<Rightarrow> (string \<times> agent_op) list \<Rightarrow> AgentSystem" where
  "run_ops execute_task sys ops = foldl (apply_op execute_task) sys ops"

definition workload_of :: "AgentSystem \<Rightarrow> string \<Rightarrow> int option" where
  "workload_of sys aid = map_option workload (heap sys aid)"

definition BaseAgent_execute_task :: "string \<Rightarrow> Task \<Rightarrow> exn + pyval" where
  "BaseAgent_execute_task self task = Inl (NotImplementedError ''Subclasses must implement _execute_task'')"

section \<open>DelegationTree (\<open>core/delegation_tree.py\<close>)\<close>

record DelegationTree =
  tasks :: "string \<rightharpoonup> Task"
  relationships :: "string \<rightharpoonup> string list"

definition truthy :: "string option \<Rightarrow> string option" where
  \<comment> \<open>\<open>if parent_id:\<close> fails for \<open>None\<close> and for the empty string\<close>
  "truthy s = (case s of None \<Rightarrow> None | Some x \<Rightarrow> if x = [] then None else Some x)"

definition DelegationTree_add_task ::
  "DelegationTree \<Rightarrow> Task \<Rightarrow> string option \<Rightarrow> (exn + string) \<times> DelegationTree" where
  \<comment> \<open>The second component is the tree when the call returns or raises.\<close>
  "DelegationTree_add_task tree task parent =
     (let tree1 = tree\<lparr>tasks := (tasks tree)(task_id task \<mapsto> task)\<rparr> in
      case truthy parent of
        Some pid \<Rightarrow>
          (case tasks tree1 pid of
             None \<Rightarrow>
               (Inl (DataIntegrityError (''Parent task '' @ pid @ '' not found'')), tree1)
           | Some parent_task \<Rightarrow>
               let tree2 = tree1\<lparr>tasks :=
                             (tasks tree1)(pid \<mapsto> add_child parent_task (task_id task))\<rparr>;
                   rel1 = (if pid \<notin> dom (relationships tree2)
                           then (relationships tree2)(pid \<mapsto> [])
                           else relationships tree2);
                   rel2 = rel1(pid \<mapsto>
                            (case rel1 pid of None \<Rightarrow> [] | Some cs \<Rightarrow> cs) @ [task_id task]);
                   rel3 = rel2(task_id task \<mapsto> [])
               in (Inr (task_id task), tree2\<lparr>relationships := rel3\<rparr>))
      | None \<Rightarrow>
          (Inr (task_id task),
           tree1\<lparr>relationships := (relationships tree1)(task_id task \<mapsto> [])\<rparr>))"

definition get_task :: "DelegationTree \<Rightarrow> string \<Rightarrow> Task option" where
  "get_task tree tid = tasks tree tid"

definition child_ids :: "DelegationTree \<Rightarrow> string \<Rightarrow> string list" where
  \<comment> \<open>\<open>relationships.get(tid, [])\<close>\<close>
  "child_ids tree tid = (case relationships tree tid of None \<Rightarrow> [] | Some cs \<Rightarrow> cs)"

section \<open>CommandCenter.cancel_task (\<open>core/command_center.py\<close>)\<close>

text \<open>
  \<open>_cancel_recursive\<close> calls itself for every child. Python gives a call stack of
  bounded depth: the first argument is the number of nested calls still available, and
  \<open>None\<close> is the \<open>RecursionError\<close> that ends the traversal when they run out, as they
  do on a cyclic adjacency map.
\<close>

fun cancel_recursive :: "nat \<Rightarrow> DelegationTree \<Rightarrow> string \<Rightarrow> DelegationTree option" where
  "cancel_recursive 0 tree tid = None"
| "cancel_recursive (Suc depth) tree tid =
     (case get_task tree tid of
        None \<Rightarrow> Some tree
      | Some current_task \<Rightarrow>
          fold (\<lambda>child_id acc.
                  case acc of
                    None \<Rightarrow> None
                  | Some tr \<Rightarrow> cancel_recursive depth tr child_id)
               (child_ids tree tid)
               (Some (tree\<lparr>tasks :=
                        (tasks tree)(tid \<mapsto> update_status current_task ''cancelled'')\<rparr>)))"

definition cancel_task ::
  "nat \<Rightarrow> DelegationTree \<Rightarrow> string \<Rightarrow> exn + (bool \<times> DelegationTree)" where
  "cancel_task recursion_limit tree tid =
     (case get_task tree tid of
        None \<Rightarrow> Inr (False, tree)
      | Some task \<Rightarrow>
          if status task \<in> set [''completed'', ''failed'', ''cancelled'']
          then Inr (False, tree)
          else
            (case cancel_recursive recursion_limit tree tid of
               None \<Rightarrow> Inl RecursionError
             | Some tree' \<Rightarrow> Inr (True, tree')))"

text \<open>
  The vocabulary of the claims about cancellation: the terminal states of the
  specification, the parent-to-child edges of the adjacency map, the descendants of a
  task, and the shape the data model asks of a tree (finitely many entries, no cycle,
  every id of the adjacency map a task).
\<close>

definition terminal :: "string \<Rightarrow> bool" where
  "terminal s = (s \<in> set [''completed'', ''failed'', ''cancelled'', ''failed_deadline''])"

definition edges :: "DelegationTree \<Rightarrow> (string \<times> string) set" where
  "edges tree = {(p, c). \<exists>cs. relationships tree p = Some cs \<and> c \<in> set cs}"

definition descendants :: "DelegationTree \<Rightarrow> string \<Rightarrow> string set" where
  "descendants tree tid = {d. (tid, d) \<in> (edges tree)\<^sup>*}"

definition well_formed :: "DelegationTree \<Rightarrow> bool" where
  "well_formed tree =
     (finite (dom (relationships tree)) \<and> acyclic (edges tree)
      \<and> (\<forall>(p, c) \<in> edges tree. p \<in> dom (tasks tree) \<and> c \<in> dom (tasks tree)))"

text \<open>
  Two trees have the same shape when they agree on the adjacency map and on which ids
  are tasks; \<open>cancelled_ids\<close> are the ids whose task is in state \<open>cancelled\<close>.
\<close>

definition same_shape :: "DelegationTree \<Rightarrow> DelegationTree \<Rightarrow> bool" where
  "same_shape tr tr' =
     (relationships tr' = relationships tr \<and> dom (tasks tr') = dom (tasks tr))"

definition cancelled_ids :: "DelegationTree \<Rightarrow> string set" where
  "cancelled_ids tr = {k. \<exists>t. tasks tr k = Some t \<and> status t = ''cancelled''}"

section \<open>TaskOrchestrator (\<open>core/orchestrator.py\<close>)\<close>

text \<open>
  The orchestrator's registry is the \<open>AgentSystem\<close>. Its own queue is keyed by the
  priority as stored. What one pass did with the task it took from the queue is the
  \<open>outcome\<close>, which carries the task as the pass leaves it.
\<close>

record TaskOrchestrator =
  task_queue :: pqueue
  retry_delay :: int
  max_orchestrator_retries :: int

datatype outcome =
    QueueEmpty
  | MissedDeadline Task
  | Assigned string Task
  | Requeued Task
  | DeadLettered Task

definition TaskOrchestrator_add_task :: "TaskOrchestrator \<Rightarrow> Task \<Rightarrow> TaskOrchestrator" where
  "TaskOrchestrator_add_task orch task =
     orch\<lparr>task_queue := pq_put (task_queue orch) (priority task, task)\<rparr>"

definition skill_match :: "Task \<Rightarrow> BaseAgent \<Rightarrow> bool" where
  "skill_match task agent = list_ex (\<lambda>agent_skill. task_type task = agent_skill) (skills agent)"

definition capacity_of :: "BaseAgent \<Rightarrow> int" where
  \<comment> \<open>\<open>getattr(agent, 'capacity', 10)\<close>\<close>
  "capacity_of agent = (case capacity agent of None \<Rightarrow> 10 | Some c \<Rightarrow> c)"

text \<open>
  The score is computed in floating point, in the order in which Python evaluates the
  expression: \<open>health_score * 10\<close>; the quotient of the two integers \<open>workload\<close> and
  \<open>capacity\<close>, which raises for a zero capacity; the difference; the product of
  \<open>access_level\<close>, converted to a float, with the literal \<open>0.1\<close>; the sum.
\<close>

definition suitability_score :: "BaseAgent \<Rightarrow> exn + pyfloat" where
  "suitability_score agent =
     (case get_ewma tenth (health_history agent) of
        Inl e \<Rightarrow> Inl e
      | Inr health_score \<Rightarrow>
          (case int_truediv (workload agent) (capacity_of agent) of
             Inl e \<Rightarrow> Inl e
           | Inr load \<Rightarrow>
               (case float_of_int (access_level agent) of
                  Inl e \<Rightarrow> Inl e
                | Inr level \<Rightarrow>
                    Inr (fadd (fsub (fmul health_score (Finite 10)) load)
                              (fmul level tenth)))))"

fun select_agent ::
  "Task \<Rightarrow> (string \<times> BaseAgent) list \<Rightarrow> string option \<Rightarrow> pyfloat \<Rightarrow> exn + string option" where
  \<comment> \<open>the loop over the snapshot; \<open>best_agent\<close> is the address of the agent object, and
      \<open>best_score\<close> starts at \<open>-float('inf')\<close>\<close>
  "select_agent task [] best_agent best_score = Inr best_agent"
| "select_agent task ((aid, agent) # rest) best_agent best_score =
     (if \<not> skill_match task agent then select_agent task rest best_agent best_score
      else if workload agent \<ge> capacity_of agent
        then select_agent task rest best_agent best_score
      else
        (case suitability_score agent of
           Inl e \<Rightarrow> Inl e
         | Inr s \<Rightarrow>
             if fgt s best_score then select_agent task rest (Some aid) s
             else select_agent task rest best_agent best_score))"

definition sleep :: "int \<Rightarrow> exn + unit" where
  \<comment> \<open>\<open>time.sleep(secs)\<close> for an integer: the time is kept as a signed 64-bit count of
      nanoseconds; a length that does not fit and a negative length are refused\<close>
  "sleep secs =
     (if secs * 1000000000 < - (2 ^ 63) \<or> 2 ^ 63 - 1 < secs * 1000000000 then Inl OverflowError
      else if secs < 0 then Inl (ValueError ''sleep length must be non-negative'')
      else Inr ())"

text \<open>
  Tasks are values here, while the source hands one task object around. A refused
  \<open>receive_task\<close> leaves the object in the entry that its insertion appended to the
  agent's queue, and the orchestrator then goes on to change that object: \<open>rebind\<close>
  writes the task as the orchestrator leaves it into that entry, whose key stays.
\<close>

definition rebind :: "AgentSystem \<Rightarrow> string \<Rightarrow> Task \<Rightarrow> AgentSystem" where
  "rebind sys aid task =
     (case heap sys aid of
        None \<Rightarrow> sys
      | Some a \<Rightarrow>
          (case rev (priority_queue a) of
             [] \<Rightarrow> sys
           | (key, _) # earlier \<Rightarrow>
               store sys aid (a\<lparr>priority_queue := rev earlier @ [(key, task)]\<rparr>)))"

text \<open>
  \<open>_assign_task\<close>. The result is the orchestrator, the agents, and either the outcome
  or, when an exception leaves the method, the exception together with the task as it is
  at that moment; the task has left the queue by then. \<open>put_raises\<close> is handed to the
  chosen agent's \<open>receive_task\<close>. The source writes the re-queueing block out once for
  each of the two branches, and waits \<open>retry_delay\<close> seconds in the second one only.
\<close>

definition assign_task ::
  "bool \<Rightarrow> int \<Rightarrow> TaskOrchestrator \<Rightarrow> AgentSystem
     \<Rightarrow> TaskOrchestrator \<times> AgentSystem \<times> ((exn \<times> Task) + outcome)" where
  "assign_task put_raises now orch sys =
     (case pq_get (task_queue orch) of
        None \<Rightarrow> (orch, sys, Inr QueueEmpty)
      | Some ((_, task), rest) \<Rightarrow>
          let orch1 = orch\<lparr>task_queue := rest\<rparr> in
          if is_overdue now task
          then (orch1, sys, Inr (MissedDeadline (update_status task ''failed_deadline'')))
          else
            (case select_agent task (get_all_agents sys) None NegInf of
               Inl e \<Rightarrow> (orch1, sys, Inl (e, task))
             | Inr (Some best_agent) \<Rightarrow>
                 (case receive_task put_raises now sys best_agent task of
                    (True, sys1, task1) \<Rightarrow> (orch1, sys1, Inr (Assigned best_agent task1))
                  | (False, sys1, task1) \<Rightarrow>
                      let task2 = task1\<lparr>priority := max 1 (priority task1 - 1)\<rparr>;
                          task3 = task2\<lparr>attempt_count := attempt_count task2 + 1\<rparr>
                      in
                      if attempt_count task3 > max_orchestrator_retries orch1 then
                        let task4 = update_status task3 ''failed''
                        in (orch1, rebind sys1 best_agent task4, Inr (DeadLettered task4))
                      else
                        (TaskOrchestrator_add_task orch1 task3, rebind sys1 best_agent task3,
                         Inr (Requeued task3)))
             | Inr None \<Rightarrow>
                 let task2 = task\<lparr>priority := max 1 (priority task - 1)\<rparr>;
                     task3 = task2\<lparr>attempt_count := attempt_count task2 + 1\<rparr>
                 in
                 if attempt_count task3 > max_orchestrator_retries orch1 then
                   (orch1, sys, Inr (DeadLettered (update_status task3 ''failed'')))
                 else
                   (case sleep (retry_delay orch1) of
                      Inl e \<Rightarrow> (orch1, sys, Inl (e, task3))
                    | Inr _ \<Rightarrow>
                        (TaskOrchestrator_add_task orch1 task3, sys, Inr (Requeued task3)))))"

text \<open>
  The selection as the specification words it. An agent is a candidate when its skills
  contain the task's type and its workload is below its capacity, which is 10 when unset;
  the candidates of a task are those of the registry snapshot, in its order. The score
  of an agent with health average \<open>h\<close>, workload \<open>w\<close>, capacity \<open>c\<close> and access level
  \<open>l\<close> is \<open>h * 10 - w / c + l * 0.1\<close>, in floating point. \<open>first_best sc cs aid a\<close>
  says that among the candidates \<open>cs\<close>, scored by \<open>sc\<close>, the agent \<open>a\<close> at address
  \<open>aid\<close> has a score that no candidate exceeds and that exceeds the score of every
  candidate before it, so that it is the first seen among those of greatest score.
\<close>

definition candidate :: "Task \<Rightarrow> BaseAgent \<Rightarrow> bool" where
  "candidate task a =
     (task_type task \<in> set (skills a)
      \<and> workload a < (case capacity a of None \<Rightarrow> 10 | Some c \<Rightarrow> c))"

definition candidates :: "Task \<Rightarrow> AgentSystem \<Rightarrow> (string \<times> BaseAgent) list" where
  "candidates task sys = filter (\<lambda>(aid, a). candidate task a) (get_all_agents sys)"

definition score :: "pyfloat \<Rightarrow> int \<Rightarrow> int option \<Rightarrow> int \<Rightarrow> pyfloat" where
  "score h w c l =
     fadd (fsub (fmul h (Finite 10))
                (fl (real_of_int w / real_of_int (case c of None \<Rightarrow> 10 | Some n \<Rightarrow> n))))
          (fmul (fl (real_of_int l)) tenth)"

definition first_best ::
  "(BaseAgent \<Rightarrow> pyfloat) \<Rightarrow> (string \<times> BaseAgent) list \<Rightarrow> string \<Rightarrow> BaseAgent \<Rightarrow> bool" where
  "first_best sc cs aid a =
     (\<exists>pre post. cs = pre @ (aid, a) # post
        \<and> (\<forall>(x, b) \<in> set pre. fgt (sc a) (sc b))
        \<and> (\<forall>(x, b) \<in> set post. \<not> fgt (sc b) (sc a)))"

section \<open>Example states\<close>

text \<open>
  Concrete agents, tasks, orchestrators and trees on which the theorems below are
  evaluated.

  \<^item> A worker \<open>s\<close> of access level 1 and a lead \<open>r\<close> of access level 2, both
    registered; the worker alone; the worker holding task A (priority 5) and task B
    (priority 1).
  \<^item> An orchestrator whose queue holds task A (type \<open>x\<close>); a registry of a lead
    without the skill followed by three workers with it: one of access level 1 without
    work, and two of access level 3 with two tasks each; a registry of that lead alone.
  \<^item> The empty tree; a tree with one task that missed its deadline; and a plan P with the
    children C and D, of which D is completed, and a grandchild G under C.
\<close>

definition agent_s :: BaseAgent where
  "agent_s = BaseAgent_init ''s'' 0 ''worker'' [''x''] 1"

definition agent_r :: BaseAgent where
  "agent_r = BaseAgent_init ''r'' 0 ''lead'' [''x''] 2"

definition sys_sr :: AgentSystem where
  "sys_sr = \<lparr>heap = [''s'' \<mapsto> agent_s, ''r'' \<mapsto> agent_r], registered = [''s'', ''r'']\<rparr>"

definition task_A :: Task where
  "task_A = Task_init ''A'' ''x'' [] 5 None"

definition task_B :: Task where
  "task_B = Task_init ''B'' ''x'' [] 1 None"

definition agent_AB :: BaseAgent where
  "agent_AB = (BaseAgent_init ''s'' 0 ''worker'' [''x''] 1)
     \<lparr>priority_queue := [(- 5, task_A), (- 1, task_B)], workload := 2\<rparr>"

definition tree_empty :: DelegationTree where
  "tree_empty = \<lparr>tasks = Map.empty, relationships = Map.empty\<rparr>"

definition tree_late :: DelegationTree where
  "tree_late = \<lparr>tasks = [''A'' \<mapsto> task_A\<lparr>status := ''failed_deadline''\<rparr>],
                relationships = [''A'' \<mapsto> []]\<rparr>"

definition sys_s :: AgentSystem where
  "sys_s = \<lparr>heap = [''s'' \<mapsto> agent_s], registered = [''s'']\<rparr>"

definition ops_s :: "(string \<times> agent_op) list" where
  "ops_s = [(''s'', ReceiveTask False 1 task_A), (''s'', ProcessTask False False 2),
            (''s'', ProcessTask False False 3), (''s'', ReceiveTask False 4 task_B)]"

definition sys_AB :: AgentSystem where
  "sys_AB = \<lparr>heap = [''s'' \<mapsto> agent_AB], registered = [''s'']\<rparr>"

definition orch_A :: TaskOrchestrator where
  "orch_A = \<lparr>task_queue = [(5, task_A)], retry_delay = 5, max_orchestrator_retries = 3\<rparr>"

definition agent_1 :: BaseAgent where
  "agent_1 = BaseAgent_init ''a1'' 0 ''worker'' [''x''] 1"

definition agent_2 :: BaseAgent where
  "agent_2 = (BaseAgent_init ''a2'' 0 ''worker'' [''w'', ''x''] 3)\<lparr>workload := 2\<rparr>"

definition agent_4 :: BaseAgent where
  "agent_4 = (BaseAgent_init ''a4'' 0 ''worker'' [''x''] 3)\<lparr>workload := 2\<rparr>"

definition agent_3 :: BaseAgent where
  "agent_3 = BaseAgent_init ''a3'' 0 ''lead'' [''y''] 2"

definition sys_3 :: AgentSystem where
  "sys_3 = \<lparr>heap = [''a1'' \<mapsto> agent_1, ''a2'' \<mapsto> agent_2, ''a3'' \<mapsto> agent_3,
                    ''a4'' \<mapsto> agent_4],
            registered = [''a3'', ''a1'', ''a2'', ''a4'']\<rparr>"

definition sys_y :: AgentSystem where
  "sys_y = \<lparr>heap = [''a3'' \<mapsto> agent_3], registered = [''a3'']\<rparr>"

definition task_P :: Task where "task_P = Task_init ''P'' ''plan'' [] 5 None"

definition task_C :: Task where "task_C = Task_init ''C'' ''x'' [] 5 None"

definition task_D :: Task where "task_D = (Task_init ''D'' ''x'' [] 5 None)\<lparr>status := ''completed''\<rparr>"

definition task_G :: Task where "task_G = Task_init ''G'' ''x'' [] 3 None"

definition tree_family :: DelegationTree where
  "tree_family =
     \<lparr>tasks = [''P'' \<mapsto> add_child (add_child task_P ''C'') ''D'',
               ''C'' \<mapsto> add_child task_C ''G'', ''D'' \<mapsto> task_D, ''G'' \<mapsto> task_G],
      relationships = [''P'' \<mapsto> [''C'', ''D''], ''C'' \<mapsto> [''G''], ''D'' \<mapsto> [], ''G'' \<mapsto> []]\<rparr>"

definition family_rank :: "string \<Rightarrow> nat" where
  "family_rank k = (if k = ''P'' then 2 else if k = ''C'' then 1 else 0)"

section \<open>Evaluating floating-point operations\<close>

lemma pow2_powr: "pow2 e = 2 powr (of_int e)"
  by (simp add: pow2_def powr_real_of_int inverse_eq_divide)

lemma pow2_pos: "0 < pow2 e"
  by (simp add: pow2_powr)

lemma binade_eq:
  assumes "pow2 e \<le> \<bar>x\<bar>" and "\<bar>x\<bar> < pow2 (e + 1)" and "- 1022 \<le> e"
  shows "binade x = e"
proof -
  have "0 < \<bar>x\<bar>" using assms(1) pow2_pos [of e] by linarith
  then have "\<lfloor>log 2 \<bar>x\<bar>\<rfloor> = e"
    using assms(1,2) by (simp add: floor_log_eq_powr_iff pow2_powr)
  with assms(3) show ?thesis by (simp add: binade_def)
qed

text \<open>
  The rounding of a number whose binade is known: the premises are inequalities between
  numerals, and the result is a quotient of numerals.
\<close>

lemma fl_in_binade:
  assumes "pow2 e \<le> \<bar>x\<bar>" and "\<bar>x\<bar> < pow2 (e + 1)" and "- 1022 \<le> e"
    and "\<bar>of_int (round_even (x / pow2 (e - 52))) * pow2 (e - 52)\<bar> < (2::real) ^ 1024"
  shows "fl x = Finite (of_int (round_even (x / pow2 (e - 52))) * pow2 (e - 52))"
proof -
  have "x \<noteq> 0" using assms(1) pow2_pos [of e] by auto
  with binade_eq [OF assms(1-3)] assms(4) show ?thesis
    by (simp add: fl_def Let_def)
qed

lemmas fl_eval = pow2_def round_even_def Let_def

lemma fl_zero: "fl 0 = Finite 0"
  by (simp add: fl_def)

lemma fl_one: "fl 1 = Finite 1"
  by (subst fl_in_binade [of 0]) (simp_all add: fl_eval)

lemma tenth_val: "tenth = Finite (3602879701896397 / 36028797018963968)"
  unfolding tenth_def
  by (subst fl_in_binade [of "- 4"]) (simp_all add: fl_eval)

lemma one_minus_tenth: "fsub (Finite 1) tenth = Finite (8106479329266893 / 9007199254740992)"
  unfolding fsub_def tenth_val
  by (simp, subst fl_in_binade [of "- 1"]) (simp_all add: fl_eval)

lemma tenth_times_one: "fmul tenth (Finite 1) = tenth"
  unfolding tenth_val
  by (simp, subst fl_in_binade [of "- 4"]) (simp_all add: fl_eval)

lemma ewma_step_tenth_one: "ewma_step tenth (Finite 1) (Finite 1) = Finite 1"
proof -
  have a: "fmul (Finite (8106479329266893 / 9007199254740992)) (Finite 1)
        = Finite (8106479329266893 / 9007199254740992)"
    by (simp, subst fl_in_binade [of "- 1"]) (simp_all add: fl_eval)
  have b: "fadd (Finite (3602879701896397 / 36028797018963968))
             (Finite (8106479329266893 / 9007199254740992)) = Finite 1"
    by (simp, subst fl_in_binade [of 0]) (simp_all add: fl_eval)
  show ?thesis
    unfolding ewma_step_def one_minus_tenth tenth_times_one a
    unfolding tenth_val by (rule b)
qed

section \<open>Properties of HealthHistory\<close>



lemma ewma_loop_all_ones:
  assumes "fadd (fmul alpha (Finite 1)) (fmul (fsub (Finite 1) alpha) (Finite 1)) = Finite 1"
    and "\<forall>x \<in> set xs. x = Finite 1"
  shows "ewma_loop alpha (Finite 1) xs = Finite 1"
  using assms(2) by (induction xs) (simp_all add: ewma_step_def assms(1))

lemma get_ewma_all_ones:
  assumes "health_scores h \<noteq> []" and "\<forall>x \<in> set (health_scores h). x = Finite 1"
    and "fadd (fmul alpha (Finite 1)) (fmul (fsub (Finite 1) alpha) (Finite 1)) = Finite 1"
  shows "get_ewma alpha h = Inr (Finite 1)"
proof -
  obtain x xs where xs: "health_scores h = x # xs"
    using assms(1) by (cases "health_scores h") auto
  with assms(2) have "x = Finite 1" by simp
  with xs show ?thesis
    using ewma_loop_all_ones [OF assms(3,2)] by (simp add: get_ewma_def)
qed

lemma get_ewma_default: "get_ewma tenth HealthHistory_default = Inr (Finite 1)"
proof (rule get_ewma_all_ones)
  show "health_scores HealthHistory_default \<noteq> []"
    by (simp add: HealthHistory_default_def HealthHistory_init_def deque_def)
  show "\<forall>x \<in> set (health_scores HealthHistory_default). x = Finite 1"
    by (simp add: HealthHistory_default_def HealthHistory_init_def deque_def)
  show "fadd (fmul tenth (Finite 1)) (fmul (fsub (Finite 1) tenth) (Finite 1)) = Finite 1"
    using ewma_step_tenth_one by (simp add: ewma_step_def)
qed








text \<open>
  Claim C9. On a window that has been emptied the specification asks \<open>get_ewma\<close> and
  \<open>get_average\<close> for the sentinel \<open>0\<close>. The source has no guard: indexing the empty
  deque raises \<open>IndexError\<close>, and the mean divides by a length of zero.
\<close>

theorem C9_empty_window_raises:
  "get_ewma alpha \<lparr>health_scores = [], maxlen = n\<rparr> = Inl IndexError
   \<and> get_average fsum \<lparr>health_scores = [], maxlen = n\<rparr> = Inl ZeroDivisionError"
  by (simp add: get_ewma_def get_average_def float_of_int_def fl_zero)

section \<open>Properties of BaseAgent\<close>

lemmas example_defs = agent_s_def agent_r_def sys_sr_def BaseAgent_init_def Task_init_def
  task_A_def task_B_def

lemmas message_defs = receive_message_def receive_message_try_def get_agent_def store_def
  log_activity_def

text \<open>
  Claim C5. A message from a registered sender of lower access level is to be rejected by
  raising \<open>AccessDenied\<close> to the caller, unlike the unknown-sender case, with an
  \<open>ACCESS_DENIED\<close> audit entry and an unchanged message store. In the source the
  \<open>raise\<close> sits inside \<open>try ... except Exception\<close>: the block ends in the raise, the
  handler returns \<open>False\<close>, and the caller sees what it sees for an unknown sender. The
  audit entry is written and the message store is untouched.
\<close>

theorem C5_access_denied_not_raised:
  "fst (receive_message_try 7 sys_sr ''r'' ''s'' [(''task_id'', ''t'')])
     = Inl (AccessDeniedError ''Agent s has insufficient access level'')
   \<and> fst (receive_message 7 sys_sr ''r'' ''s'' [(''task_id'', ''t'')]) = Inr False
   \<and> fst (receive_message 7 sys_sr ''r'' ''nobody'' [(''task_id'', ''t'')]) = Inr False
   \<and> map_option (map event \<circ> audit_log)
        (heap (snd (receive_message 7 sys_sr ''r'' ''s'' [(''task_id'', ''t'')])) ''r'')
       = Some [''ACCESS_DENIED'']
   \<and> map_option communication_channel
        (heap (snd (receive_message 7 sys_sr ''r'' ''s'' [(''task_id'', ''t'')])) ''r'')
       = map_option communication_channel (heap sys_sr ''r'')"
  by (simp add: example_defs message_defs)

text \<open>
  The agent \<open>agent_AB\<close> is what \<open>receive_task\<close> makes of a fresh worker that is given
  task A and then task B (up to the audit entries and the \<open>assigned_to\<close> marks).
\<close>

lemma agent_AB_reached:
  "map_option (map (\<lambda>(k, t). (k, task_id t)) \<circ> priority_queue)
     (heap (fst (snd (receive_task False 0 (fst (snd (receive_task False 0
        \<lparr>heap = [''s'' \<mapsto> agent_s], registered = [''s'']\<rparr> ''s'' task_A))) ''s'' task_B))) ''s'')
   = Some (map (\<lambda>(k, t). (k, task_id t)) (priority_queue agent_AB))"
  by (simp add: receive_task_def example_defs store_def log_activity_def pq_put_def
      agent_AB_def Let_def)

text \<open>
  Claim C4. \<open>from_dict (to_dict agent)\<close> is to reproduce the agent, its queue included,
  with the same tasks leaving in the same order. The queue holds the key \<open>- priority\<close>;
  \<open>to_dict\<close> negates the key and \<open>from_dict\<close> inserts what it reads without negating
  it back, so the restored queue is keyed by \<open>priority\<close> and hands out the least urgent
  task first.
\<close>

theorem C4_roundtrip_reverses_queue:
  "map_option (task_id \<circ> snd \<circ> fst) (pq_get (priority_queue agent_AB)) = Some ''A''
   \<and> map_option (task_id \<circ> snd \<circ> fst)
        (pq_get (priority_queue (from_dict ''u'' 9 (to_dict agent_AB)))) = Some ''B''
   \<and> priority_queue (from_dict ''u'' 9 (to_dict agent_AB)) = [(5, task_A), (1, task_B)]"
  by (simp add: agent_AB_def to_dict_def from_dict_def BaseAgent_init_def task_A_def task_B_def
      Task_init_def Task_to_dict_def Task_from_dict_def pq_put_def)

section \<open>Properties of DelegationTree and cancellation\<close>

text \<open>
  Claim C8. \<open>add_task\<close> with a parent id that the tree does not hold is to raise
  \<open>DataIntegrity\<close> and leave the tree as it was. The source stores the task in the task
  map first and looks for the parent afterwards: it raises, and the task stays registered
  in the task map (the adjacency map is untouched).
\<close>

theorem C8_add_task_registers_before_check:
  "DelegationTree_add_task tree_empty task_A (Some ''P'')
     = (Inl (DataIntegrityError ''Parent task P not found''),
        \<lparr>tasks = [''A'' \<mapsto> task_A], relationships = Map.empty\<rparr>)
   \<and> tasks (snd (DelegationTree_add_task tree_empty task_A (Some ''P''))) ''A''
       \<noteq> tasks tree_empty ''A''"
  by (simp add: DelegationTree_add_task_def tree_empty_def truthy_def task_A_def Task_init_def)

text \<open>
  Claim C7. \<open>cancel_task\<close> on a task in a terminal state is to return false and change
  nothing. The source tests the status against \<open>completed\<close>, \<open>failed\<close> and
  \<open>cancelled\<close> only: a task in state \<open>failed_deadline\<close>, which the orchestrator sets
  on a missed deadline, is cancelled like a live one.
\<close>

theorem C7_failed_deadline_is_cancelled:
  "terminal ''failed_deadline''
   \<and> cancel_task 1000 tree_late ''A''
       = Inr (True, tree_late\<lparr>tasks := [''A'' \<mapsto> task_A\<lparr>status := ''cancelled''\<rparr>]\<rparr>)"
proof -
  have step: "cancel_recursive (Suc n) tree_late ''A''
        = Some (tree_late\<lparr>tasks := [''A'' \<mapsto> task_A\<lparr>status := ''cancelled''\<rparr>]\<rparr>)" for n
    by (simp add: get_task_def child_ids_def tree_late_def task_A_def Task_init_def
        update_status_def)
  have "cancel_recursive 1000 tree_late ''A''
        = Some (tree_late\<lparr>tasks := [''A'' \<mapsto> task_A\<lparr>status := ''cancelled''\<rparr>]\<rparr>)"
    using step [of 999] by simp
  then show ?thesis
    by (simp add: cancel_task_def get_task_def tree_late_def task_A_def Task_init_def
        terminal_def)
qed


section \<open>The workload counter\<close>

lemma receive_message_workload:
  "workload_of (snd (receive_message now sys r s m)) x = workload_of sys x"
  by (auto simp: workload_of_def receive_message_def receive_message_try_def store_def
      log_activity_def Let_def split: option.splits)

lemma communicate_fold_workload:
  "workload_of (fold (\<lambda>child_id s.
                    case get_agent s child_id of
                      None \<Rightarrow> s
                    | Some child_agent \<Rightarrow> snd (receive_message now s child_id sid (msg child_id)))
                 cs sys) x = workload_of sys x"
  by (induction cs arbitrary: sys) (auto simp: receive_message_workload split: option.splits)

lemma communicate_result_workload:
  "workload_of (communicate_result now sys self task res) x = workload_of sys x"
  unfolding communicate_result_def
  using communicate_fold_workload [where msg = "\<lambda>_. [(''task_id'', task_id task), (''result'', res)]"]
  by (simp split: option.splits)

lemma receive_task_workload:
  "workload_of (fst (snd (receive_task put_raises now sys self task))) x =
     (if x = self \<and> \<not> put_raises then map_option (\<lambda>w. w + 1) (workload_of sys x)
      else workload_of sys x)"
  by (auto simp: workload_of_def receive_task_def store_def log_activity_def Let_def
      split: option.splits)

lemma reset_workload:
  "workload_of (snd (reset now sys self)) x =
     (if x = self then map_option (\<lambda>_. 0) (workload_of sys x) else workload_of sys x)"
  by (auto simp: workload_of_def reset_def store_def split: option.splits)

lemma workload_of_store:
  "workload_of (store sys self a) x = (if x = self then Some (workload a) else workload_of sys x)"
  by (simp add: workload_of_def store_def)

lemma touch_workload:
  "workload_of (case heap sys1 self of None \<Rightarrow> sys1
                | Some a3 \<Rightarrow> store sys1 self (a3\<lparr>last_active := now\<rparr>)) x = workload_of sys1 x"
  by (auto simp: workload_of_def store_def split: option.splits)

lemma process_task_workload:
  "workload_of (fst (snd (process_task ex gr pr now sys self))) x =
     (if x \<noteq> self then workload_of sys x
      else
        (case heap sys self of
           None \<Rightarrow> None
         | Some a \<Rightarrow>
             (case pq_get (priority_queue a) of
                None \<Rightarrow> Some (workload a)
              | Some ((k, task), rest) \<Rightarrow>
                  if gr then Some (workload a)
                  else
                    (case ex (increment_attempt (update_status task ''in_progress'')) of
                       Inr res \<Rightarrow> Some (max 0 (workload a - 1))
                     | Inl e \<Rightarrow>
                         if can_retry (set_error (increment_attempt
                                (update_status task ''in_progress'')) e) \<and> \<not> pr
                         then Some (max 0 (workload a - 1) + 1)
                         else Some (max 0 (workload a - 1))))))"
proof (cases "heap sys self")
  case None
  then show ?thesis by (simp add: process_task_def workload_of_def)
next
  case (Some a)
  show ?thesis
  proof (cases "pq_get (priority_queue a)")
    case None
    with Some show ?thesis by (simp add: process_task_def workload_of_def)
  next
    case qs: (Some popped)
    obtain k task rest where popped: "popped = ((k, task), rest)"
      by (cases popped) auto
    show ?thesis
    proof (cases gr)
      case True
      with Some qs popped show ?thesis
        by (simp add: process_task_def workload_of_store)
    next
      case False
      let ?t1 = "increment_attempt (update_status task ''in_progress'')"
      show ?thesis
      proof (cases "ex ?t1")
        case (Inr res)
        with Some qs popped False show ?thesis
          by (simp add: process_task_def Let_def touch_workload communicate_result_workload
              workload_of_store log_activity_def)
      next
        case (Inl e)
        with Some qs popped False show ?thesis
          by (simp add: process_task_def Let_def workload_of_store log_activity_def)
      qed
    qed
  qed
qed

lemma workload_of_nonneg_iff:
  "(\<forall>a \<in> ran (heap sys). 0 \<le> workload a) = (\<forall>x w. workload_of sys x = Some w \<longrightarrow> 0 \<le> w)"
  by (auto simp: workload_of_def ran_def)

lemma apply_op_nonneg:
  assumes "\<forall>x w. workload_of sys x = Some w \<longrightarrow> 0 \<le> w"
    and "workload_of (apply_op ex sys sop) x = Some w"
  shows "0 \<le> w"
proof -
  obtain self op where sop: "sop = (self, op)" by (cases sop) auto
  show ?thesis
  proof (cases op)
    case (ReceiveTask pr now task)
    with assms sop show ?thesis
      by (auto simp: receive_task_workload split: if_splits)
  next
    case (ProcessTask gr pr now)
    have old: "0 \<le> workload a" if "heap sys self = Some a" for a
      using assms(1) that by (auto simp: workload_of_def)
    from assms(2) sop ProcessTask
    have "workload_of (fst (snd (process_task (ex self) gr pr now sys self))) x = Some w"
      by simp
    then show ?thesis
      using assms(1) old
      by (auto simp: process_task_workload
          split: if_splits option.splits sum.splits prod.splits)
  next
    case (Reset now)
    with assms sop show ?thesis
      by (auto simp: reset_workload split: if_splits)
  qed
qed

lemma run_ops_nonneg:
  assumes "\<forall>x w. workload_of sys x = Some w \<longrightarrow> 0 \<le> w"
  shows "\<forall>x w. workload_of (run_ops ex sys ops) x = Some w \<longrightarrow> 0 \<le> w"
  using assms unfolding run_ops_def
proof (induction ops arbitrary: sys)
  case Nil
  then show ?case by simp
next
  case (Cons sop ops)
  have "\<forall>x w. workload_of (apply_op ex sys sop) x = Some w \<longrightarrow> 0 \<le> w"
    using apply_op_nonneg [OF Cons.prems] by blast
  from Cons.IH [OF this] show ?case by simp
qed

text \<open>
  Claim C10. Over every sequence of \<open>receive_task\<close>, \<open>process_task\<close> and \<open>reset\<close>
  calls, on any agents and whatever the queue operations and the task bodies do, no
  agent's workload becomes negative when none was before, and a new agent starts at 0:
  \<open>receive_task\<close> adds one, \<open>reset\<close> writes 0, and \<open>process_task\<close> writes
  \<open>max 0 (workload - 1)\<close>, plus one when it puts a failed task that can be retried back
  into the queue.
\<close>

theorem C10_workload_never_negative:
  "((\<forall>a \<in> ran (heap sys). 0 \<le> workload a)
      \<longrightarrow> (\<forall>a \<in> ran (heap (run_ops execute_task sys ops)). 0 \<le> workload a))
   \<and> workload_of (fst (snd (receive_task False now sys self task))) self
       = map_option (\<lambda>w. w + 1) (workload_of sys self)
   \<and> workload_of (snd (reset now sys self)) self = map_option (\<lambda>w. 0) (workload_of sys self)
   \<and> (heap sys self = Some a \<and> pq_get (priority_queue a) = Some ((k, queued), rest)
        \<longrightarrow> workload_of (fst (snd (process_task ex False put_raises now sys self))) self
            = (case ex (increment_attempt (update_status queued ''in_progress'')) of
                 Inr res \<Rightarrow> Some (max 0 (workload a - 1))
               | Inl e \<Rightarrow>
                   if can_retry (set_error (increment_attempt
                          (update_status queued ''in_progress'')) e) \<and> \<not> put_raises
                   then Some (max 0 (workload a - 1) + 1)
                   else Some (max 0 (workload a - 1))))
   \<and> workload (BaseAgent_init uuid created r sk lvl) = 0"
proof (intro conjI impI)
  assume "\<forall>a \<in> ran (heap sys). 0 \<le> workload a"
  then show "\<forall>a \<in> ran (heap (run_ops execute_task sys ops)). 0 \<le> workload a"
    using run_ops_nonneg [of sys execute_task ops] by (simp only: workload_of_nonneg_iff)
next
  show "workload_of (fst (snd (receive_task False now sys self task))) self
       = map_option (\<lambda>w. w + 1) (workload_of sys self)"
    by (simp add: receive_task_workload)
next
  show "workload_of (snd (reset now sys self)) self = map_option (\<lambda>w. 0) (workload_of sys self)"
    by (simp add: reset_workload)
next
  assume "heap sys self = Some a \<and> pq_get (priority_queue a) = Some ((k, queued), rest)"
  then show "workload_of (fst (snd (process_task ex False put_raises now sys self))) self
            = (case ex (increment_attempt (update_status queued ''in_progress'')) of
                 Inr res \<Rightarrow> Some (max 0 (workload a - 1))
               | Inl e \<Rightarrow>
                   if can_retry (set_error (increment_attempt
                          (update_status queued ''in_progress'')) e) \<and> \<not> put_raises
                   then Some (max 0 (workload a - 1) + 1)
                   else Some (max 0 (workload a - 1)))"
    by (simp add: process_task_workload)
next
  show "workload (BaseAgent_init uuid created r sk lvl) = 0"
    by (simp add: BaseAgent_init_def)
qed

lemma run_s: "workload_of (run_ops BaseAgent_execute_task sys_s ops_s) ''s'' = Some 2"
  by (simp add: run_ops_def ops_s_def sys_s_def agent_s_def BaseAgent_init_def task_A_def task_B_def Task_init_def
     workload_of_def receive_task_def process_task_def store_def log_activity_def pq_put_def Let_def
     BaseAgent_execute_task_def update_status_def increment_attempt_def set_error_def can_retry_def)

theorem C10_workload_never_negative_witness:
  "ran (heap sys_s) = {agent_s} \<and> workload agent_s = 0
   \<and> (\<exists>a. heap (run_ops BaseAgent_execute_task sys_s ops_s) ''s'' = Some a
          \<and> workload a = 2 \<and> 0 \<le> workload a)
   \<and> heap sys_AB ''s'' = Some agent_AB
   \<and> pq_get (priority_queue agent_AB) = Some ((- 5, task_A), [(- 1, task_B)])
   \<and> workload_of (fst (snd (process_task (BaseAgent_execute_task ''s'') False False 0
        sys_AB ''s''))) ''s'' = Some 2"
proof -
  have r: "ran (heap sys_s) = {agent_s}" and w0: "workload agent_s = 0"
    by (simp_all add: sys_s_def agent_s_def BaseAgent_init_def)
  then have "\<forall>a \<in> ran (heap sys_s). 0 \<le> workload a" by simp
  then have inv: "\<forall>a \<in> ran (heap (run_ops BaseAgent_execute_task sys_s ops_s)). 0 \<le> workload a"
    using C10_workload_never_negative [of sys_s BaseAgent_execute_task ops_s] by blast
  obtain a where a: "heap (run_ops BaseAgent_execute_task sys_s ops_s) ''s'' = Some a"
    and wa: "workload a = 2"
    using run_s by (auto simp: workload_of_def)
  from a have "a \<in> ran (heap (run_ops BaseAgent_execute_task sys_s ops_s))"
    by (auto simp: ran_def)
  with inv have "0 \<le> workload a" by blast
  with a wa have run: "\<exists>a. heap (run_ops BaseAgent_execute_task sys_s ops_s) ''s'' = Some a
          \<and> workload a = 2 \<and> 0 \<le> workload a" by blast
  have h: "heap sys_AB ''s'' = Some agent_AB" by (simp add: sys_AB_def)
  have q: "pq_get (priority_queue agent_AB) = Some ((- 5, task_A), [(- 1, task_B)])"
    by (simp add: agent_AB_def)
  have "workload_of (fst (snd (process_task (BaseAgent_execute_task ''s'') False False 0
        sys_AB ''s''))) ''s'' = Some 2"
    using C10_workload_never_negative [of sys_AB BaseAgent_execute_task "[]" 0 "''s''" task_A
        agent_AB "- 5" task_A "[(- 1, task_B)]" "BaseAgent_execute_task ''s''" False] h q
    by (simp add: BaseAgent_execute_task_def can_retry_def set_error_def increment_attempt_def
        update_status_def task_A_def Task_init_def agent_AB_def BaseAgent_init_def)
  with r w0 run h q show ?thesis by blast
qed


section \<open>Properties of the orchestrator\<close>

lemma fgt_trans: "fgt a b \<Longrightarrow> fgt b c \<Longrightarrow> fgt a c"
  by (cases a; cases b; cases c) auto

lemma fgt_after_le: "\<not> fgt x b \<Longrightarrow> fgt y b \<Longrightarrow> x \<noteq> NaN \<Longrightarrow> fgt y x"
  by (cases x; cases y; cases b) auto

lemma fgt_NegInf: "x \<noteq> NaN \<Longrightarrow> x \<noteq> NegInf \<Longrightarrow> fgt x NegInf"
  by (cases x) auto

lemma float_of_int_value: "float_of_int i = Inr x \<Longrightarrow> x = fl (real_of_int i)"
  by (auto simp: float_of_int_def split: pyfloat.splits)

lemma int_truediv_value:
  "int_truediv a b = Inr x \<Longrightarrow> x = fl (real_of_int a / real_of_int b)"
  by (auto simp: int_truediv_def split: pyfloat.splits if_splits)

lemma suitability_score_value:
  assumes "suitability_score a = Inr s"
  shows "\<exists>h. get_ewma tenth (health_history a) = Inr h
           \<and> s = score h (workload a) (capacity a) (access_level a)"
proof -
  from assms obtain h load level where h: "get_ewma tenth (health_history a) = Inr h"
    and load: "int_truediv (workload a) (capacity_of a) = Inr load"
    and level: "float_of_int (access_level a) = Inr level"
    and s: "s = fadd (fsub (fmul h (Finite 10)) load) (fmul level tenth)"
    by (auto simp: suitability_score_def split: sum.splits)
  from load have "load = fl (real_of_int (workload a)
        / real_of_int (case capacity a of None \<Rightarrow> 10 | Some n \<Rightarrow> n))"
    by (simp add: int_truediv_value capacity_of_def)
  moreover from level have "level = fl (real_of_int (access_level a))"
    by (rule float_of_int_value)
  ultimately have "s = score h (workload a) (capacity a) (access_level a)"
    using s by (simp add: score_def)
  with h show ?thesis by blast
qed

lemma skill_match_iff: "skill_match task a = (task_type task \<in> set (skills a))"
  by (auto simp: skill_match_def list_ex_iff)

lemma candidate_iff:
  "candidate task a = (skill_match task a \<and> \<not> capacity_of a \<le> workload a)"
  by (auto simp: candidate_def skill_match_iff capacity_of_def)

lemma select_agent_no_candidates:
  "filter (\<lambda>(aid, a). candidate task a) xs = [] \<Longrightarrow> select_agent task xs ba bs = Inr ba"
proof (induction xs arbitrary: ba bs)
  case Nil
  then show ?case by simp
next
  case (Cons x xs)
  obtain aid a where x: "x = (aid, a)" by (cases x) auto
  from Cons.prems x have nc: "\<not> candidate task a"
    and rest: "filter (\<lambda>(aid, a). candidate task a) xs = []"
    by (auto split: if_splits)
  from nc have "\<not> skill_match task a \<or> capacity_of a \<le> workload a"
    by (auto simp: candidate_iff)
  with x Cons.IH [OF rest] show ?case by auto
qed

lemma first_best_head:
  assumes "\<forall>(x, b) \<in> set cs. \<not> fgt (sc b) (sc a)"
  shows "first_best sc ((aid, a) # cs) aid a"
  unfolding first_best_def
  using assms by (intro exI [of _ "[]"] exI [of _ cs]) simp

lemma first_best_later:
  assumes "first_best sc cs aid' a'" and "fgt (sc a') (sc a)"
  shows "first_best sc ((aid, a) # cs) aid' a'"
proof -
  from assms(1) obtain pre post where d: "cs = pre @ (aid', a') # post"
    "\<forall>(x, b) \<in> set pre. fgt (sc a') (sc b)" "\<forall>(x, b) \<in> set post. \<not> fgt (sc b) (sc a')"
    unfolding first_best_def by blast
  show ?thesis
    unfolding first_best_def
    using d assms(2) by (intro exI [of _ "(aid, a) # pre"] exI [of _ post]) simp
qed

lemma first_best_mem: "first_best sc cs aid a \<Longrightarrow> (aid, a) \<in> set cs"
  unfolding first_best_def by auto

lemma select_agent_char:
  assumes "\<forall>(aid, a) \<in> set xs.
             candidate task a \<longrightarrow> suitability_score a = Inr (sc a) \<and> sc a \<noteq> NaN"
  shows "\<exists>r. select_agent task xs ba bs = Inr r \<and>
     ((r = ba \<and> (\<forall>(x, b) \<in> set (filter (\<lambda>(aid, a). candidate task a) xs). \<not> fgt (sc b) bs))
      \<or> (\<exists>aid a. r = Some aid \<and> fgt (sc a) bs
            \<and> first_best sc (filter (\<lambda>(aid, a). candidate task a) xs) aid a))"
  using assms
proof (induction xs arbitrary: ba bs)
  case Nil
  then show ?case by simp
next
  case (Cons x xs)
  let ?C = "\<lambda>xs. filter (\<lambda>(aid, a). candidate task a) xs"
  obtain aid a where x: "x = (aid, a)" by (cases x) auto
  from Cons.prems have scored: "\<forall>(aid, a) \<in> set xs.
      candidate task a \<longrightarrow> suitability_score a = Inr (sc a) \<and> sc a \<noteq> NaN"
    by auto
  show ?case
  proof (cases "candidate task a")
    case False
    then have skip: "select_agent task (x # xs) ba bs = select_agent task xs ba bs"
      using x by (auto simp: candidate_iff)
    from False x have "?C (x # xs) = ?C xs" by simp
    with skip Cons.IH [OF scored, of ba bs] show ?thesis by simp
  next
    case True
    with Cons.prems x have sc: "suitability_score a = Inr (sc a)" and nn: "sc a \<noteq> NaN"
      by auto
    from True have go: "skill_match task a" "\<not> capacity_of a \<le> workload a"
      by (auto simp: candidate_iff)
    from True x have C: "?C (x # xs) = (aid, a) # ?C xs" by simp
    show ?thesis
    proof (cases "fgt (sc a) bs")
      case ex: True
      with x sc go have step: "select_agent task (x # xs) ba bs
            = select_agent task xs (Some aid) (sc a)" by simp
      from Cons.IH [OF scored, of "Some aid" "sc a"]
      obtain r where r: "select_agent task xs (Some aid) (sc a) = Inr r"
        and alt: "(r = Some aid \<and> (\<forall>(x, b) \<in> set (?C xs). \<not> fgt (sc b) (sc a)))
          \<or> (\<exists>aid' a'. r = Some aid' \<and> fgt (sc a') (sc a) \<and> first_best sc (?C xs) aid' a')"
        by blast
      from alt have "\<exists>aid' a'. r = Some aid' \<and> fgt (sc a') bs
            \<and> first_best sc (?C (x # xs)) aid' a'"
      proof
        assume keep: "r = Some aid \<and> (\<forall>(x, b) \<in> set (?C xs). \<not> fgt (sc b) (sc a))"
        then have "\<forall>(x, b) \<in> set (?C xs). \<not> fgt (sc b) (sc a)" by blast
        then have "first_best sc (?C (x # xs)) aid a"
          unfolding C by (rule first_best_head)
        with keep ex show ?thesis by blast
      next
        assume "\<exists>aid' a'. r = Some aid' \<and> fgt (sc a') (sc a) \<and> first_best sc (?C xs) aid' a'"
        then obtain aid' a' where d: "r = Some aid'" "fgt (sc a') (sc a)"
          "first_best sc (?C xs) aid' a'" by auto
        from d(2) ex have e: "fgt (sc a') bs" by (rule fgt_trans)
        from d(3) d(2) have "first_best sc (?C (x # xs)) aid' a'"
          unfolding C by (rule first_best_later)
        with d(1) e show ?thesis by blast
      qed
      with step r show ?thesis by simp
    next
      case nex: False
      with x sc go have step: "select_agent task (x # xs) ba bs = select_agent task xs ba bs"
        by simp
      from Cons.IH [OF scored, of ba bs]
      obtain r where r: "select_agent task xs ba bs = Inr r"
        and alt: "(r = ba \<and> (\<forall>(x, b) \<in> set (?C xs). \<not> fgt (sc b) bs))
          \<or> (\<exists>aid' a'. r = Some aid' \<and> fgt (sc a') bs \<and> first_best sc (?C xs) aid' a')"
        by blast
      from alt have "(r = ba \<and> (\<forall>(x, b) \<in> set (?C (x # xs)). \<not> fgt (sc b) bs))
          \<or> (\<exists>aid' a'. r = Some aid' \<and> fgt (sc a') bs \<and> first_best sc (?C (x # xs)) aid' a')"
      proof
        assume keep: "r = ba \<and> (\<forall>(x, b) \<in> set (?C xs). \<not> fgt (sc b) bs)"
        with nex have "\<forall>(x, b) \<in> set ((aid, a) # ?C xs). \<not> fgt (sc b) bs"
          by auto
        with keep show ?thesis unfolding C by blast
      next
        assume "\<exists>aid' a'. r = Some aid' \<and> fgt (sc a') bs \<and> first_best sc (?C xs) aid' a'"
        then obtain aid' a' where d: "r = Some aid'" "fgt (sc a') bs"
          "first_best sc (?C xs) aid' a'" by auto
        from nex d(2) nn have "fgt (sc a') (sc a)" by (rule fgt_after_le)
        with d(3) have "first_best sc (?C (x # xs)) aid' a'"
          unfolding C by (rule first_best_later)
        with d(1,2) show ?thesis by blast
      qed
      with step r show ?thesis by simp
    qed
  qed
qed

lemma select_agent_first_best:
  assumes "\<forall>(aid, a) \<in> set (candidates task sys).
             suitability_score a = Inr (sc a) \<and> sc a \<noteq> NaN \<and> sc a \<noteq> NegInf"
    and "candidates task sys \<noteq> []"
  shows "\<exists>aid a. select_agent task (get_all_agents sys) None NegInf = Inr (Some aid)
           \<and> first_best sc (candidates task sys) aid a"
proof -
  from assms(1) have "\<forall>(aid, a) \<in> set (get_all_agents sys).
      candidate task a \<longrightarrow> suitability_score a = Inr (sc a) \<and> sc a \<noteq> NaN"
    by (auto simp: candidates_def)
  from select_agent_char [OF this, of None NegInf]
  obtain r where r: "select_agent task (get_all_agents sys) None NegInf = Inr r"
    and alt: "(r = None \<and> (\<forall>(x, b) \<in> set (candidates task sys). \<not> fgt (sc b) NegInf))
      \<or> (\<exists>aid a. r = Some aid \<and> fgt (sc a) NegInf \<and> first_best sc (candidates task sys) aid a)"
    unfolding candidates_def by blast
  from assms(2) obtain i c cs where c: "candidates task sys = (i, c) # cs"
    by (cases "candidates task sys") auto
  with assms(1) have "fgt (sc c) NegInf" by (simp add: fgt_NegInf)
  with c have "\<not> (\<forall>(x, b) \<in> set (candidates task sys). \<not> fgt (sc b) NegInf)"
    by auto
  with alt r show ?thesis by blast
qed

lemma get_all_agents_heap:
  "(aid, a) \<in> set (get_all_agents sys) \<Longrightarrow> heap sys aid = Some a"
  by (auto simp: get_all_agents_def List.map_filter_def)

lemma receive_task_accepted:
  assumes "heap sys aid = Some a"
  shows "receive_task False now sys aid task =
     (True,
      sys\<lparr>heap := (heap sys)(aid \<mapsto>
        a\<lparr>priority_queue :=
              priority_queue a @ [(- priority task, task\<lparr>assigned_to := Some (agent_id a)\<rparr>)],
           audit_log := audit_log a @
              [\<lparr>timestamp = now, entry_agent_id = agent_id a, agent_role = role a,
                event = ''TASK_RECEIVED'', entry_task_id = Some (task_id task),
                entry_details = None\<rparr>],
           workload := workload a + 1,
           last_active := now\<rparr>)\<rparr>,
      task\<lparr>assigned_to := Some (agent_id a)\<rparr>)"
  using assms
  by (simp add: receive_task_def Let_def store_def log_activity_def pq_put_def)

lemma receive_task_refused:
  assumes "heap sys aid = Some a"
  shows "receive_task True now sys aid task =
     (False,
      sys\<lparr>heap := (heap sys)(aid \<mapsto>
        a\<lparr>priority_queue :=
              priority_queue a @ [(- priority task, task\<lparr>assigned_to := Some (agent_id a)\<rparr>)]\<rparr>)\<rparr>,
      task\<lparr>assigned_to := Some (agent_id a)\<rparr>)"
  using assms
  by (simp add: receive_task_def Let_def store_def pq_put_def)

lemma rebind_refused:
  "rebind (sys\<lparr>heap := (heap sys)(aid \<mapsto> a\<lparr>priority_queue := q @ [(key, t)]\<rparr>)\<rparr>) aid t'
     = sys\<lparr>heap := (heap sys)(aid \<mapsto> a\<lparr>priority_queue := q @ [(key, t')]\<rparr>)\<rparr>"
  by (simp add: rebind_def store_def)

text \<open>
  Claim C1. For a task that \<open>_assign_task\<close> takes from the queue and that is not
  overdue, over a registry snapshot for whose candidates the scoring returns a number
  (\<open>sc\<close> names it) other than NaN and minus infinity: the number is
  \<open>health_ewma * 10 - workload / capacity + access_level * 0.1\<close>, computed in floating
  point with the capacity 10 when unset; when there is a candidate, the loop selects the
  candidate of greatest score, the first one in snapshot order on a tie, and the task is
  offered to it through \<open>receive_task\<close>: where the agent accepts, the pass ends with the
  task, assigned to that agent, at the end of the agent's queue under the key
  \<open>- priority\<close>, a \<open>TASK_RECEIVED\<close> entry in its audit log, its workload one higher,
  and every other agent and the rest of the orchestrator's queue as they were; when
  there is no candidate, no agent is selected.
\<close>

theorem C1_assign_task_selects_first_best:
  assumes "pq_get (task_queue orch) = Some ((k, task), rest)"
    and "\<not> is_overdue now task"
    and "\<forall>(aid, a) \<in> set (candidates task sys).
           suitability_score a = Inr (sc a) \<and> sc a \<noteq> NaN \<and> sc a \<noteq> NegInf"
  shows "(\<forall>(aid, a) \<in> set (candidates task sys).
            \<exists>h. get_ewma tenth (health_history a) = Inr h
               \<and> sc a = score h (workload a) (capacity a) (access_level a))
     \<and> (candidates task sys \<noteq> [] \<longrightarrow>
          (\<exists>aid a. first_best sc (candidates task sys) aid a
             \<and> heap sys aid = Some a
             \<and> select_agent task (get_all_agents sys) None NegInf = Inr (Some aid)
             \<and> assign_task False now orch sys
                 = (orch\<lparr>task_queue := rest\<rparr>,
                    sys\<lparr>heap := (heap sys)(aid \<mapsto>
                      a\<lparr>priority_queue := priority_queue a @
                           [(- priority task, task\<lparr>assigned_to := Some (agent_id a)\<rparr>)],
                        audit_log := audit_log a @
                           [\<lparr>timestamp = now, entry_agent_id = agent_id a, agent_role = role a,
                             event = ''TASK_RECEIVED'', entry_task_id = Some (task_id task),
                             entry_details = None\<rparr>],
                        workload := workload a + 1,
                        last_active := now\<rparr>)\<rparr>,
                    Inr (Assigned aid (task\<lparr>assigned_to := Some (agent_id a)\<rparr>)))))
     \<and> (candidates task sys = [] \<longrightarrow>
          select_agent task (get_all_agents sys) None NegInf = Inr None)"
proof (intro conjI impI)
  show "\<forall>(aid, a) \<in> set (candidates task sys).
            \<exists>h. get_ewma tenth (health_history a) = Inr h
               \<and> sc a = score h (workload a) (capacity a) (access_level a)"
    using assms(3) by (auto intro: suitability_score_value)
next
  assume "candidates task sys \<noteq> []"
  with select_agent_first_best [OF assms(3)]
  obtain aid a where sel: "select_agent task (get_all_agents sys) None NegInf = Inr (Some aid)"
    and fb: "first_best sc (candidates task sys) aid a" by blast
  from fb have "(aid, a) \<in> set (candidates task sys)" by (rule first_best_mem)
  then have "(aid, a) \<in> set (get_all_agents sys)" by (simp add: candidates_def)
  then have h: "heap sys aid = Some a" by (rule get_all_agents_heap)
  from assms(1,2) sel
  have "assign_task False now orch sys
          = (orch\<lparr>task_queue := rest\<rparr>,
                    sys\<lparr>heap := (heap sys)(aid \<mapsto>
                      a\<lparr>priority_queue := priority_queue a @
                           [(- priority task, task\<lparr>assigned_to := Some (agent_id a)\<rparr>)],
                        audit_log := audit_log a @
                           [\<lparr>timestamp = now, entry_agent_id = agent_id a, agent_role = role a,
                             event = ''TASK_RECEIVED'', entry_task_id = Some (task_id task),
                             entry_details = None\<rparr>],
                        workload := workload a + 1,
                        last_active := now\<rparr>)\<rparr>,
                    Inr (Assigned aid (task\<lparr>assigned_to := Some (agent_id a)\<rparr>)))"
    by (simp add: assign_task_def receive_task_accepted [OF h])
  with fb h sel show "\<exists>aid a. first_best sc (candidates task sys) aid a
             \<and> heap sys aid = Some a
             \<and> select_agent task (get_all_agents sys) None NegInf = Inr (Some aid)
             \<and> assign_task False now orch sys
                 = (orch\<lparr>task_queue := rest\<rparr>,
                    sys\<lparr>heap := (heap sys)(aid \<mapsto>
                      a\<lparr>priority_queue := priority_queue a @
                           [(- priority task, task\<lparr>assigned_to := Some (agent_id a)\<rparr>)],
                        audit_log := audit_log a @
                           [\<lparr>timestamp = now, entry_agent_id = agent_id a, agent_role = role a,
                             event = ''TASK_RECEIVED'', entry_task_id = Some (task_id task),
                             entry_details = None\<rparr>],
                        workload := workload a + 1,
                        last_active := now\<rparr>)\<rparr>,
                    Inr (Assigned aid (task\<lparr>assigned_to := Some (agent_id a)\<rparr>)))"
    by blast
next
  assume "candidates task sys = []"
  then show "select_agent task (get_all_agents sys) None NegInf = Inr None"
    unfolding candidates_def by (rule select_agent_no_candidates)
qed

lemma ten_times_one: "fmul (Finite 1) (Finite 10) = Finite 10"
  by (simp, subst fl_in_binade [of 3]) (simp_all add: fl_eval)

lemma float_of_int_1: "float_of_int 1 = Inr (Finite 1)"
  by (simp add: float_of_int_def fl_one)

lemma float_of_int_3: "float_of_int 3 = Inr (Finite 3)"
proof -
  have "fl 3 = Finite 3"
    by (subst fl_in_binade [of 1]) (simp_all add: fl_eval)
  then show ?thesis by (simp add: float_of_int_def)
qed

lemma int_truediv_0_10: "int_truediv 0 10 = Inr (Finite 0)"
  by (simp add: int_truediv_def fl_zero)

lemma int_truediv_2_10:
  "int_truediv 2 10 = Inr (Finite (3602879701896397 / 18014398509481984))"
proof -
  have "fl (2 / 10) = Finite (3602879701896397 / 18014398509481984)"
    by (subst fl_in_binade [of "- 3"]) (simp_all add: fl_eval)
  then show ?thesis by (simp add: int_truediv_def)
qed

lemma one_times_tenth: "fmul (Finite 1) tenth = tenth"
  unfolding tenth_val
  by (simp, subst fl_in_binade [of "- 4"]) (simp_all add: fl_eval)

lemma three_times_tenth:
  "fmul (Finite 3) tenth = Finite (1351079888211149 / 4503599627370496)"
  unfolding tenth_val
  by (simp, subst fl_in_binade [of "- 2"]) (simp_all add: fl_eval)

lemma ten_minus_zero: "fsub (Finite 10) (Finite 0) = Finite 10"
  unfolding fsub_def
  by (simp, subst fl_in_binade [of 3]) (simp_all add: fl_eval)

lemma ten_minus_fifth:
  "fsub (Finite 10) (Finite (3602879701896397 / 18014398509481984))
     = Finite (2758454771764429 / 281474976710656)"
  unfolding fsub_def
  by (simp, subst fl_in_binade [of 3]) (simp_all add: fl_eval)

lemma ten_plus_tenth: "fadd (Finite 10) tenth = Finite (5685794529555251 / 562949953421312)"
  unfolding tenth_val
  by (simp, subst fl_in_binade [of 3]) (simp_all add: fl_eval)

lemma sum_level_3:
  "fadd (Finite (2758454771764429 / 281474976710656))
        (Finite (1351079888211149 / 4503599627370496))
     = Finite (1421448632388813 / 140737488355328)"
  by (simp, subst fl_in_binade [of 3]) (simp_all add: fl_eval)

lemma suitability_score_steps:
  assumes "get_ewma tenth (health_history a) = Inr h"
    and "int_truediv (workload a) (capacity_of a) = Inr load"
    and "float_of_int (access_level a) = Inr level"
    and "fmul h (Finite 10) = p" and "fsub p load = d" and "fmul level tenth = b"
    and "fadd d b = s"
  shows "suitability_score a = Inr s"
  using assms by (simp add: suitability_score_def)

lemma suitability_score_idle_level_1:
  "suitability_score (BaseAgent_init uuid now r sk 1)
     = Inr (Finite (5685794529555251 / 562949953421312))"
  by (rule suitability_score_steps
        [OF _ _ _ ten_times_one ten_minus_zero one_times_tenth ten_plus_tenth])
     (simp_all add: BaseAgent_init_def capacity_of_def get_ewma_default int_truediv_0_10
        float_of_int_1)

lemma suitability_score_busy_level_3:
  "suitability_score ((BaseAgent_init uuid now r sk 3)\<lparr>workload := 2\<rparr>)
     = Inr (Finite (1421448632388813 / 140737488355328))"
  by (rule suitability_score_steps
        [OF _ _ _ ten_times_one ten_minus_fifth three_times_tenth sum_level_3])
     (simp_all add: BaseAgent_init_def capacity_of_def get_ewma_default int_truediv_2_10
        float_of_int_3)

lemma snapshot_sys_3:
  "get_all_agents sys_3
     = [(''a3'', agent_3), (''a1'', agent_1), (''a2'', agent_2), (''a4'', agent_4)]"
  by (simp add: get_all_agents_def sys_3_def List.map_filter_simps)

lemma candidates_sys_3:
  "candidates task_A sys_3 = [(''a1'', agent_1), (''a2'', agent_2), (''a4'', agent_4)]"
  by (simp add: candidates_def snapshot_sys_3 candidate_def agent_1_def agent_2_def agent_3_def
      agent_4_def BaseAgent_init_def task_A_def Task_init_def)

lemma scores_sys_3:
  "suitability_score agent_1 = Inr (Finite (5685794529555251 / 562949953421312))"
  "suitability_score agent_2 = Inr (Finite (1421448632388813 / 140737488355328))"
  "suitability_score agent_4 = Inr (Finite (1421448632388813 / 140737488355328))"
  by (simp_all add: agent_1_def agent_2_def agent_4_def suitability_score_idle_level_1
      suitability_score_busy_level_3)

lemma select_sys_3:
  "select_agent task_A (get_all_agents sys_3) None NegInf = Inr (Some ''a2'')"
proof -
  have m: "\<not> skill_match task_A agent_3" "skill_match task_A agent_1"
    "skill_match task_A agent_2" "skill_match task_A agent_4"
    by (simp_all add: skill_match_def agent_1_def agent_2_def agent_3_def agent_4_def
        BaseAgent_init_def task_A_def Task_init_def)
  have c: "\<not> capacity_of agent_1 \<le> workload agent_1" "\<not> capacity_of agent_2 \<le> workload agent_2"
    "\<not> capacity_of agent_4 \<le> workload agent_4"
    by (simp_all add: capacity_of_def agent_1_def agent_2_def agent_4_def BaseAgent_init_def)
  show ?thesis
    by (simp add: snapshot_sys_3 m c scores_sys_3)
qed

theorem C1_assign_task_selects_first_best_witness:
  "pq_get (task_queue orch_A) = Some ((5, task_A), [])
   \<and> \<not> is_overdue 0 task_A
   \<and> candidates task_A sys_3 = [(''a1'', agent_1), (''a2'', agent_2), (''a4'', agent_4)]
   \<and> suitability_score agent_1 = Inr (Finite (5685794529555251 / 562949953421312))
   \<and> suitability_score agent_2 = Inr (Finite (1421448632388813 / 140737488355328))
   \<and> suitability_score agent_4 = Inr (Finite (1421448632388813 / 140737488355328))
   \<and> assign_task False 0 orch_A sys_3
       = (orch_A\<lparr>task_queue := []\<rparr>,
          sys_3\<lparr>heap := (heap sys_3)(''a2'' \<mapsto>
            agent_2\<lparr>priority_queue := [(- 5, task_A\<lparr>assigned_to := Some ''a2''\<rparr>)],
                    audit_log :=
                      [\<lparr>timestamp = 0, entry_agent_id = ''a2'', agent_role = ''worker'',
                        event = ''TASK_RECEIVED'', entry_task_id = Some ''A'',
                        entry_details = None\<rparr>],
                    workload := 3,
                    last_active := 0\<rparr>)\<rparr>,
          Inr (Assigned ''a2'' (task_A\<lparr>assigned_to := Some ''a2''\<rparr>)))"
proof -
  define sc :: "BaseAgent \<Rightarrow> pyfloat" where "sc = (\<lambda>a. if workload a = 0
      then Finite (5685794529555251 / 562949953421312)
      else Finite (1421448632388813 / 140737488355328))"
  have pop: "pq_get (task_queue orch_A) = Some ((5, task_A), [])"
    by (simp add: orch_A_def)
  have due: "\<not> is_overdue 0 task_A"
    by (simp add: is_overdue_def task_A_def Task_init_def)
  have w: "workload agent_1 = 0" "workload agent_2 = 2" "workload agent_4 = 2"
    by (simp_all add: agent_1_def agent_2_def agent_4_def BaseAgent_init_def)
  have scored: "\<forall>(aid, a) \<in> set (candidates task_A sys_3).
           suitability_score a = Inr (sc a) \<and> sc a \<noteq> NaN \<and> sc a \<noteq> NegInf"
    by (simp add: candidates_sys_3 scores_sys_3 sc_def w)
  have ne: "candidates task_A sys_3 \<noteq> []" by (simp add: candidates_sys_3)
  from C1_assign_task_selects_first_best [OF pop due scored] ne
  obtain aid a where h: "heap sys_3 aid = Some a"
    and sel: "select_agent task_A (get_all_agents sys_3) None NegInf = Inr (Some aid)"
    and run: "assign_task False 0 orch_A sys_3
                 = (orch_A\<lparr>task_queue := []\<rparr>,
                    sys_3\<lparr>heap := (heap sys_3)(aid \<mapsto>
                      a\<lparr>priority_queue := priority_queue a @
                           [(- priority task_A, task_A\<lparr>assigned_to := Some (agent_id a)\<rparr>)],
                        audit_log := audit_log a @
                           [\<lparr>timestamp = 0, entry_agent_id = agent_id a, agent_role = role a,
                             event = ''TASK_RECEIVED'', entry_task_id = Some (task_id task_A),
                             entry_details = None\<rparr>],
                        workload := workload a + 1,
                        last_active := 0\<rparr>)\<rparr>,
                    Inr (Assigned aid (task_A\<lparr>assigned_to := Some (agent_id a)\<rparr>)))"
    by blast
  from sel have aid: "aid = ''a2''" by (simp add: select_sys_3)
  with h have a: "a = agent_2" by (simp add: sys_3_def)
  have f: "priority_queue agent_2 = []" "audit_log agent_2 = []" "agent_id agent_2 = ''a2''"
    "role agent_2 = ''worker''" "priority task_A = 5" "task_id task_A = ''A''"
    by (simp_all add: agent_2_def BaseAgent_init_def task_A_def Task_init_def)
  from run have "assign_task False 0 orch_A sys_3
       = (orch_A\<lparr>task_queue := []\<rparr>,
          sys_3\<lparr>heap := (heap sys_3)(''a2'' \<mapsto>
            agent_2\<lparr>priority_queue := [(- 5, task_A\<lparr>assigned_to := Some ''a2''\<rparr>)],
                    audit_log :=
                      [\<lparr>timestamp = 0, entry_agent_id = ''a2'', agent_role = ''worker'',
                        event = ''TASK_RECEIVED'', entry_task_id = Some ''A'',
                        entry_details = None\<rparr>],
                    workload := 3,
                    last_active := 0\<rparr>)\<rparr>,
          Inr (Assigned ''a2'' (task_A\<lparr>assigned_to := Some ''a2''\<rparr>)))"
    unfolding aid a by (simp add: f w)
  with pop due candidates_sys_3 scores_sys_3 show ?thesis by simp
qed

lemma select_agent_selected:
  "select_agent task xs ba bs = Inr (Some aid) \<Longrightarrow> ba = Some aid \<or> aid \<in> fst ` set xs"
proof (induction xs arbitrary: ba bs)
  case Nil
  then show ?case by simp
next
  case (Cons x xs)
  obtain i a where x: "x = (i, a)" by (cases x) auto
  from Cons.prems x
  consider "select_agent task xs ba bs = Inr (Some aid)"
    | s where "select_agent task xs (Some i) s = Inr (Some aid)"
    by (auto split: if_splits sum.splits)
  then show ?case
  proof cases
    case 1
    from Cons.IH [OF this] show ?thesis by auto
  next
    case 2
    from Cons.IH [OF this] x show ?thesis by auto
  qed
qed

lemma sleep_ok: "0 \<le> secs \<Longrightarrow> secs \<le> 9223372036 \<Longrightarrow> sleep secs = Inr ()"
  by (simp add: sleep_def)

text \<open>
  Claim C2. When \<open>_assign_task\<close> takes a task that is not overdue and either there is
  no candidate or the chosen agent's \<open>receive_task\<close> reports failure, the task's
  priority becomes \<open>max 1 (priority - 1)\<close> and its attempt count grows by one; if the
  new count exceeds \<open>max_orchestrator_retries\<close> the task is marked \<open>failed\<close> and the
  queue is left without it, otherwise it is put back at the end of the queue under its
  new priority. This holds for a \<open>retry_delay\<close> that \<open>time.sleep\<close> accepts, from 0 to
  9223372036 seconds: the branch without a candidate sleeps before it puts the task back.
  Without a candidate no agent changes; an agent that refused holds the task,
  assigned to it, at the end of its own queue under the key \<open>- priority\<close> of
  the offer. The witness is the specification's example, a task of priority 5 that no
  agent matches and that goes back at priority 4 with one more attempt, and a refusal
  by the agent that was chosen.
\<close>

theorem C2_failed_assignment_requeues:
  assumes "pq_get (task_queue orch) = Some ((k, task), rest)"
    and "\<not> is_overdue now task"
    and "0 \<le> retry_delay orch" and "retry_delay orch \<le> 9223372036"
    and "candidates task sys = []
         \<or> (select_agent task (get_all_agents sys) None NegInf = Inr (Some aid)
            \<and> heap sys aid = Some a
            \<and> \<not> fst (receive_task put_raises now sys aid task))"
  shows "\<exists>task1 task' sys'.
       task1 = (if candidates task sys = [] then task
                else task\<lparr>assigned_to := Some (agent_id a)\<rparr>)
     \<and> task' = (if max_orchestrator_retries orch < attempt_count task + 1
                then task1\<lparr>priority := max 1 (priority task - 1),
                           attempt_count := attempt_count task + 1, status := ''failed''\<rparr>
                else task1\<lparr>priority := max 1 (priority task - 1),
                           attempt_count := attempt_count task + 1\<rparr>)
     \<and> sys' = (if candidates task sys = [] then sys
               else sys\<lparr>heap := (heap sys)(aid \<mapsto>
                      a\<lparr>priority_queue := priority_queue a @ [(- priority task, task')]\<rparr>)\<rparr>)
     \<and> assign_task put_raises now orch sys =
         (if max_orchestrator_retries orch < attempt_count task + 1
          then (orch\<lparr>task_queue := rest\<rparr>, sys', Inr (DeadLettered task'))
          else (orch\<lparr>task_queue := rest @ [(priority task', task')]\<rparr>, sys',
                Inr (Requeued task')))"
  using assms(5)
proof
  assume none: "candidates task sys = []"
  then have "select_agent task (get_all_agents sys) None NegInf = Inr None"
    unfolding candidates_def by (rule select_agent_no_candidates)
  with assms(1,2) none sleep_ok [OF assms(3,4)] show ?thesis
    by (simp add: assign_task_def Let_def update_status_def TaskOrchestrator_add_task_def
        pq_put_def)
next
  assume chosen: "select_agent task (get_all_agents sys) None NegInf = Inr (Some aid)
            \<and> heap sys aid = Some a
            \<and> \<not> fst (receive_task put_raises now sys aid task)"
  then have sel: "select_agent task (get_all_agents sys) None NegInf = Inr (Some aid)"
    and h: "heap sys aid = Some a"
    and refused: "\<not> fst (receive_task put_raises now sys aid task)"
    by simp_all
  have some: "candidates task sys \<noteq> []"
  proof
    assume "candidates task sys = []"
    then have "select_agent task (get_all_agents sys) None NegInf = Inr None"
      unfolding candidates_def by (rule select_agent_no_candidates)
    with sel show False by simp
  qed
  from refused h have "put_raises"
    by (cases put_raises) (simp_all add: receive_task_accepted)
  with assms(1,2) sel some show ?thesis
    by (simp add: assign_task_def Let_def receive_task_refused [OF h] rebind_refused
        update_status_def TaskOrchestrator_add_task_def pq_put_def)
qed

lemma candidates_sys_y: "candidates task_A sys_y = []"
  by (simp add: candidates_def get_all_agents_def sys_y_def List.map_filter_simps
      candidate_def agent_3_def BaseAgent_init_def task_A_def Task_init_def)

theorem C2_failed_assignment_requeues_witness:
  "pq_get (task_queue orch_A) = Some ((5, task_A), [])
   \<and> \<not> is_overdue 0 task_A
   \<and> retry_delay orch_A = 5
   \<and> candidates task_A sys_y = []
   \<and> assign_task False 0 orch_A sys_y
       = (orch_A\<lparr>task_queue := [(4, task_A\<lparr>priority := 4, attempt_count := 1\<rparr>)]\<rparr>, sys_y,
          Inr (Requeued (task_A\<lparr>priority := 4, attempt_count := 1\<rparr>)))
   \<and> select_agent task_A (get_all_agents sys_3) None NegInf = Inr (Some ''a2'')
   \<and> \<not> fst (receive_task True 0 sys_3 ''a2'' task_A)
   \<and> assign_task True 0 orch_A sys_3
       = (orch_A\<lparr>task_queue :=
            [(4, task_A\<lparr>assigned_to := Some ''a2'', priority := 4, attempt_count := 1\<rparr>)]\<rparr>,
          sys_3\<lparr>heap := (heap sys_3)(''a2'' \<mapsto>
            agent_2\<lparr>priority_queue :=
              [(- 5, task_A\<lparr>assigned_to := Some ''a2'', priority := 4, attempt_count := 1\<rparr>)]\<rparr>)\<rparr>,
          Inr (Requeued (task_A\<lparr>assigned_to := Some ''a2'', priority := 4,
                                attempt_count := 1\<rparr>)))"
proof -
  have pop: "pq_get (task_queue orch_A) = Some ((5, task_A), [])"
    by (simp add: orch_A_def)
  have due: "\<not> is_overdue 0 task_A"
    by (simp add: is_overdue_def task_A_def Task_init_def)
  have delay: "retry_delay orch_A = 5" by (simp add: orch_A_def)
  then have d: "0 \<le> retry_delay orch_A" "retry_delay orch_A \<le> 9223372036" by simp_all
  have f: "priority task_A = 5" "attempt_count task_A = 0" "max_orchestrator_retries orch_A = 3"
    "priority_queue agent_2 = []" "agent_id agent_2 = ''a2''"
    by (simp_all add: task_A_def Task_init_def orch_A_def agent_2_def BaseAgent_init_def)
  from candidates_sys_y
  have "candidates task_A sys_y = []
         \<or> (select_agent task_A (get_all_agents sys_y) None NegInf = Inr (Some ''a3'')
            \<and> heap sys_y ''a3'' = Some agent_3
            \<and> \<not> fst (receive_task False 0 sys_y ''a3'' task_A))" by simp
  from C2_failed_assignment_requeues [OF pop due d this]
  have first: "assign_task False 0 orch_A sys_y
       = (orch_A\<lparr>task_queue := [(4, task_A\<lparr>priority := 4, attempt_count := 1\<rparr>)]\<rparr>, sys_y,
          Inr (Requeued (task_A\<lparr>priority := 4, attempt_count := 1\<rparr>)))"
    by (simp add: candidates_sys_y f)
  have h: "heap sys_3 ''a2'' = Some agent_2" by (simp add: sys_3_def)
  have refuse: "\<not> fst (receive_task True 0 sys_3 ''a2'' task_A)"
    by (simp add: receive_task_refused [OF h])
  with select_sys_3 h
  have "candidates task_A sys_3 = []
         \<or> (select_agent task_A (get_all_agents sys_3) None NegInf = Inr (Some ''a2'')
            \<and> heap sys_3 ''a2'' = Some agent_2
            \<and> \<not> fst (receive_task True 0 sys_3 ''a2'' task_A))" by simp
  from C2_failed_assignment_requeues [OF pop due d this]
  have second: "assign_task True 0 orch_A sys_3
       = (orch_A\<lparr>task_queue :=
            [(4, task_A\<lparr>assigned_to := Some ''a2'', priority := 4, attempt_count := 1\<rparr>)]\<rparr>,
          sys_3\<lparr>heap := (heap sys_3)(''a2'' \<mapsto>
            agent_2\<lparr>priority_queue :=
              [(- 5, task_A\<lparr>assigned_to := Some ''a2'', priority := 4, attempt_count := 1\<rparr>)]\<rparr>)\<rparr>,
          Inr (Requeued (task_A\<lparr>assigned_to := Some ''a2'', priority := 4,
                                attempt_count := 1\<rparr>)))"
    by (simp add: candidates_sys_3 f)
  from pop due delay candidates_sys_y first select_sys_3 refuse second show ?thesis
    by simp
qed

section \<open>Cascading cancellation\<close>

lemma same_shape_refl: "same_shape tr tr"
  by (simp add: same_shape_def)

lemma same_shape_trans: "same_shape a b \<Longrightarrow> same_shape b c \<Longrightarrow> same_shape a c"
  by (simp add: same_shape_def)

lemma same_shape_edges: "same_shape tr tr' \<Longrightarrow> edges tr' = edges tr"
  by (simp add: same_shape_def edges_def)

lemma same_shape_descendants: "same_shape tr tr' \<Longrightarrow> descendants tr' tid = descendants tr tid"
  by (simp add: descendants_def same_shape_edges)

lemma same_shape_child_ids: "same_shape tr tr' \<Longrightarrow> child_ids tr' tid = child_ids tr tid"
  by (simp add: same_shape_def child_ids_def)

lemma edges_child_ids: "((p, c) \<in> edges tr) = (c \<in> set (child_ids tr p))"
  by (cases "relationships tr p") (auto simp: edges_def child_ids_def)

lemma mark_shape:
  "tasks tr tid = Some t \<Longrightarrow>
     same_shape tr (tr\<lparr>tasks := (tasks tr)(tid \<mapsto> update_status t ''cancelled'')\<rparr>)"
  by (auto simp: same_shape_def)

lemma mark_cancelled:
  "tasks tr tid = Some t \<Longrightarrow>
     insert tid (cancelled_ids tr)
       \<subseteq> cancelled_ids (tr\<lparr>tasks := (tasks tr)(tid \<mapsto> update_status t ''cancelled'')\<rparr>)"
  by (auto simp: cancelled_ids_def update_status_def)

lemma fold_from_None:
  "fold (\<lambda>c acc. case acc of None \<Rightarrow> None | Some tr \<Rightarrow> f tr c) cs None = None"
  by (induction cs) simp_all

lemma fold_invariant:
  assumes "fold (\<lambda>c acc. case acc of None \<Rightarrow> None | Some tr \<Rightarrow> f tr c) cs (Some x0) = Some x'"
    and "P x0"
    and "\<And>x c y. P x \<Longrightarrow> f x c = Some y \<Longrightarrow> P y"
  shows "P x'"
  using assms(1,2)
proof (induction cs arbitrary: x0)
  case Nil
  then show ?case by simp
next
  case (Cons c cs)
  show ?case
  proof (cases "f x0 c")
    case None
    with Cons.prems(1) show ?thesis by (simp add: fold_from_None)
  next
    case (Some x1)
    with Cons.prems(2) have "P x1" using assms(3) by blast
    moreover from Cons.prems(1) Some
    have "fold (\<lambda>c acc. case acc of None \<Rightarrow> None | Some tr \<Rightarrow> f tr c) cs (Some x1) = Some x'"
      by simp
    ultimately show ?thesis by (rule Cons.IH [rotated])
  qed
qed

lemma cancel_recursive_Suc:
  "cancel_recursive (Suc n) tr tid =
     (case tasks tr tid of
        None \<Rightarrow> Some tr
      | Some t \<Rightarrow>
          fold (\<lambda>c acc. case acc of None \<Rightarrow> None | Some x \<Rightarrow> cancel_recursive n x c)
            (child_ids tr tid)
            (Some (tr\<lparr>tasks := (tasks tr)(tid \<mapsto> update_status t ''cancelled'')\<rparr>)))"
  by (simp add: get_task_def)

declare cancel_recursive.simps(2) [simp del]

lemma cancel_recursive_keeps:
  "cancel_recursive n tr tid = Some tr' \<Longrightarrow>
     same_shape tr tr' \<and> cancelled_ids tr \<subseteq> cancelled_ids tr'"
proof (induction n arbitrary: tr tid tr')
  case 0
  then show ?case by simp
next
  case (Suc n)
  show ?case
  proof (cases "tasks tr tid")
    case None
    with Suc.prems show ?thesis by (simp add: cancel_recursive_Suc same_shape_refl)
  next
    case (Some t)
    let ?tr0 = "tr\<lparr>tasks := (tasks tr)(tid \<mapsto> update_status t ''cancelled'')\<rparr>"
    let ?P = "\<lambda>x. same_shape tr x \<and> cancelled_ids tr \<subseteq> cancelled_ids x"
    from Suc.prems Some
    have f: "fold (\<lambda>c acc. case acc of None \<Rightarrow> None | Some x \<Rightarrow> cancel_recursive n x c)
            (child_ids tr tid) (Some ?tr0) = Some tr'"
      by (simp add: cancel_recursive_Suc)
    have p0: "?P ?tr0"
      using mark_shape [OF Some] mark_cancelled [OF Some] by blast
    have step: "?P y" if "?P x" and "cancel_recursive n x c = Some y" for x c y
      using Suc.IH [OF that(2)] that(1) by (blast intro: same_shape_trans)
    from f p0 step show ?thesis by (rule fold_invariant)
  qed
qed

lemma fold_keeps:
  assumes "fold (\<lambda>c acc. case acc of None \<Rightarrow> None | Some x \<Rightarrow> cancel_recursive n x c) cs (Some x0)
           = Some x'"
  shows "same_shape x0 x' \<and> cancelled_ids x0 \<subseteq> cancelled_ids x'"
proof -
  let ?P = "\<lambda>x. same_shape x0 x \<and> cancelled_ids x0 \<subseteq> cancelled_ids x"
  have p0: "?P x0" by (simp add: same_shape_refl)
  have step: "?P y" if "?P x" and "cancel_recursive n x c = Some y" for x c y
    using cancel_recursive_keeps [OF that(2)] that(1) by (blast intro: same_shape_trans)
  from assms p0 step show ?thesis by (rule fold_invariant)
qed

lemma descendants_unfold:
  "descendants tr tid \<subseteq> insert tid (\<Union>c \<in> set (child_ids tr tid). descendants tr c)"
proof
  fix d
  assume "d \<in> descendants tr tid"
  then have "(tid, d) \<in> (edges tr)\<^sup>*" by (simp add: descendants_def)
  then show "d \<in> insert tid (\<Union>c \<in> set (child_ids tr tid). descendants tr c)"
  proof (cases rule: converse_rtranclE)
    case base
    then show ?thesis by simp
  next
    case (step c)
    then show ?thesis by (auto simp: edges_child_ids descendants_def)
  qed
qed

lemma same_shape_ids:
  assumes "same_shape tr x" and "\<forall>(p, c) \<in> edges tr. c \<in> dom (tasks tr)"
  shows "\<forall>(p, c) \<in> edges x. c \<in> dom (tasks x)"
  using assms by (auto simp: same_shape_def edges_def)

lemma same_shape_dom: "same_shape tr x \<Longrightarrow> set cs \<subseteq> dom (tasks tr) \<Longrightarrow> set cs \<subseteq> dom (tasks x)"
  by (simp add: same_shape_def)

lemma fold_reaches:
  assumes IH: "\<And>x c y. \<forall>(p, c) \<in> edges x. c \<in> dom (tasks x) \<Longrightarrow> c \<in> dom (tasks x)
                 \<Longrightarrow> cancel_recursive n x c = Some y \<Longrightarrow> descendants x c \<subseteq> cancelled_ids y"
    and "\<forall>(p, c) \<in> edges x0. c \<in> dom (tasks x0)"
    and "set cs \<subseteq> dom (tasks x0)"
    and "fold (\<lambda>c acc. case acc of None \<Rightarrow> None | Some x \<Rightarrow> cancel_recursive n x c) cs (Some x0)
           = Some x'"
  shows "(\<Union>c \<in> set cs. descendants x0 c) \<subseteq> cancelled_ids x'"
  using assms(2-)
proof (induction cs arbitrary: x0)
  case Nil
  then show ?case by simp
next
  case (Cons c cs)
  show ?case
  proof (cases "cancel_recursive n x0 c")
    case None
    with Cons.prems(3) show ?thesis by (simp add: fold_from_None)
  next
    case (Some x1)
    with Cons.prems(3)
    have rest: "fold (\<lambda>c acc. case acc of None \<Rightarrow> None | Some x \<Rightarrow> cancel_recursive n x c)
            cs (Some x1) = Some x'" by simp
    from cancel_recursive_keeps [OF Some] have sh: "same_shape x0 x1" by simp
    from Cons.prems(2) have cd: "c \<in> dom (tasks x0)" by simp
    have c: "descendants x0 c \<subseteq> cancelled_ids x1"
      using Cons.prems(1) cd Some by (rule IH)
    from fold_keeps [OF rest] have "cancelled_ids x1 \<subseteq> cancelled_ids x'" by simp
    with c have 1: "descendants x0 c \<subseteq> cancelled_ids x'" by blast
    from sh Cons.prems(1) have ok1: "\<forall>(p, c) \<in> edges x1. c \<in> dom (tasks x1)"
      by (rule same_shape_ids)
    from Cons.prems(2) have "set cs \<subseteq> dom (tasks x0)" by simp
    with sh have sub1: "set cs \<subseteq> dom (tasks x1)"
      by (rule same_shape_dom)
    from Cons.IH [OF ok1 sub1 rest]
    have "(\<Union>c \<in> set cs. descendants x0 c) \<subseteq> cancelled_ids x'"
      by (simp add: same_shape_descendants [OF sh])
    with 1 show ?thesis by simp
  qed
qed

lemma cancel_recursive_reaches:
  assumes "\<forall>(p, c) \<in> edges tr. c \<in> dom (tasks tr)"
    and "tid \<in> dom (tasks tr)"
    and "cancel_recursive n tr tid = Some tr'"
  shows "descendants tr tid \<subseteq> cancelled_ids tr'"
  using assms
proof (induction n arbitrary: tr tid tr')
  case 0
  then show ?case by simp
next
  case (Suc n)
  from Suc.prems(2) obtain t where t: "tasks tr tid = Some t" by auto
  let ?tr0 = "tr\<lparr>tasks := (tasks tr)(tid \<mapsto> update_status t ''cancelled'')\<rparr>"
  from Suc.prems(3) t
  have f: "fold (\<lambda>c acc. case acc of None \<Rightarrow> None | Some x \<Rightarrow> cancel_recursive n x c)
            (child_ids tr tid) (Some ?tr0) = Some tr'"
    by (simp add: cancel_recursive_Suc)
  have sh: "same_shape tr ?tr0" using t by (rule mark_shape)
  from sh Suc.prems(1) have ok0: "\<forall>(p, c) \<in> edges ?tr0. c \<in> dom (tasks ?tr0)"
    by (rule same_shape_ids)
  have "set (child_ids tr tid) \<subseteq> dom (tasks tr)"
    using Suc.prems(1) by (auto simp: edges_child_ids [symmetric])
  with sh have sub0: "set (child_ids tr tid) \<subseteq> dom (tasks ?tr0)"
    by (rule same_shape_dom)
  have "(\<Union>c \<in> set (child_ids tr tid). descendants ?tr0 c) \<subseteq> cancelled_ids tr'"
    using Suc.IH ok0 sub0 f by (rule fold_reaches)
  then have kids: "(\<Union>c \<in> set (child_ids tr tid). descendants tr c) \<subseteq> cancelled_ids tr'"
    by (simp add: same_shape_descendants [OF sh])
  from mark_cancelled [OF t] fold_keeps [OF f] have "tid \<in> cancelled_ids tr'" by blast
  with kids descendants_unfold [of tr tid] show ?case by blast
qed

lemma finite_edges:
  assumes "finite (dom (relationships tr))"
  shows "finite (edges tr)"
proof -
  have "edges tr \<subseteq> (\<Union>p \<in> dom (relationships tr). {p} \<times> set (child_ids tr p))"
    by (auto simp: edges_def child_ids_def)
  moreover have "finite (\<Union>p \<in> dom (relationships tr). {p} \<times> set (child_ids tr p))"
    using assms by simp
  ultimately show ?thesis by (rule finite_subset)
qed

lemma fold_returns:
  assumes "\<forall>c \<in> set cs. \<forall>x. same_shape tr x \<longrightarrow> cancel_recursive n x c \<noteq> None"
    and "same_shape tr x0"
  shows "fold (\<lambda>c acc. case acc of None \<Rightarrow> None | Some x \<Rightarrow> cancel_recursive n x c) cs (Some x0)
           \<noteq> None"
  using assms
proof (induction cs arbitrary: x0)
  case Nil
  then show ?case by simp
next
  case (Cons c cs)
  from Cons.prems obtain x1 where x1: "cancel_recursive n x0 c = Some x1" by fastforce
  from cancel_recursive_keeps [OF x1] Cons.prems(2) have "same_shape tr x1"
    by (blast intro: same_shape_trans)
  with Cons.IH [of x1] Cons.prems(1) x1 show ?case by simp
qed

lemma common_bound:
  assumes "\<forall>c \<in> set cs. \<exists>N. \<forall>n \<ge> N. P c n"
  shows "\<exists>N. \<forall>c \<in> set cs. \<forall>n \<ge> N. P c (n::nat)"
  using assms
proof (induction cs)
  case Nil
  then show ?case by simp
next
  case (Cons c cs)
  then obtain N1 N2 where "\<forall>n \<ge> N1. P c n" "\<forall>c \<in> set cs. \<forall>n \<ge> N2. P c n" by auto
  then have "\<forall>c' \<in> set (c # cs). \<forall>n \<ge> max N1 N2. P c' n" by simp
  then show ?case by blast
qed

lemma cancel_recursive_returns:
  assumes "finite (dom (relationships tr))" and "acyclic (edges tr)"
  shows "\<exists>N. \<forall>n \<ge> N. \<forall>x. same_shape tr x \<longrightarrow> cancel_recursive n x tid \<noteq> None"
proof -
  have "wf ((edges tr)\<inverse>)"
    using finite_edges [OF assms(1)] assms(2) by (rule finite_acyclic_wf_converse)
  then show ?thesis
  proof (induction tid rule: wf_induct_rule)
    case (less tid)
    have "\<forall>c \<in> set (child_ids tr tid).
            \<exists>N. \<forall>n \<ge> N. \<forall>x. same_shape tr x \<longrightarrow> cancel_recursive n x c \<noteq> None"
      using less.IH by (simp add: edges_child_ids [symmetric])
    then obtain N where N: "\<forall>c \<in> set (child_ids tr tid).
            \<forall>n \<ge> N. \<forall>x. same_shape tr x \<longrightarrow> cancel_recursive n x c \<noteq> None"
      using common_bound [of "child_ids tr tid"
          "\<lambda>c n. \<forall>x. same_shape tr x \<longrightarrow> cancel_recursive n x c \<noteq> None"] by blast
    have "cancel_recursive n x tid \<noteq> None" if n: "Suc N \<le> n" and sh: "same_shape tr x" for n x
    proof -
      from n obtain m where m: "n = Suc m" "N \<le> m" by (cases n) auto
      show ?thesis
      proof (cases "tasks x tid")
        case None
        with m show ?thesis by (simp add: cancel_recursive_Suc)
      next
        case (Some t)
        let ?x0 = "x\<lparr>tasks := (tasks x)(tid \<mapsto> update_status t ''cancelled'')\<rparr>"
        have sh0: "same_shape tr ?x0"
          using sh mark_shape [OF Some] by (rule same_shape_trans)
        from N m(2) have "\<forall>c \<in> set (child_ids tr tid).
            \<forall>y. same_shape tr y \<longrightarrow> cancel_recursive m y c \<noteq> None" by blast
        then have "fold (\<lambda>c acc. case acc of None \<Rightarrow> None | Some x \<Rightarrow> cancel_recursive m x c)
              (child_ids tr tid) (Some ?x0) \<noteq> None"
          using sh0 by (rule fold_returns)
        with Some m(1) sh show ?thesis
          by (simp add: cancel_recursive_Suc same_shape_child_ids)
      qed
    qed
    then show ?case by blast
  qed
qed

text \<open>
  Claim C6. For a task that the tree holds and whose status is not terminal,
  \<open>cancel_task\<close> returns true and leaves the task and every transitive descendant in
  state \<open>cancelled\<close>. The tree is one the data model admits (\<open>well_formed\<close>), and
  the call stack is deep enough for it: from some depth \<open>N\<close> on, every recursion limit
  gives this result.
\<close>

theorem C6_cancel_task_cascades:
  assumes "well_formed tree"
    and "tasks tree tid = Some task"
    and "\<not> terminal (status task)"
  shows "\<exists>N. \<forall>limit \<ge> N. \<exists>tree'.
           cancel_task limit tree tid = Inr (True, tree')
           \<and> (\<exists>t. tasks tree' tid = Some t \<and> status t = ''cancelled'')
           \<and> (\<forall>d \<in> descendants tree tid. \<exists>t. tasks tree' d = Some t \<and> status t = ''cancelled'')"
proof -
  from assms(1) have fin: "finite (dom (relationships tree))" and acy: "acyclic (edges tree)"
    and ids: "\<forall>(p, c) \<in> edges tree. c \<in> dom (tasks tree)"
    by (auto simp: well_formed_def)
  from cancel_recursive_returns [OF fin acy, of tid]
  obtain N where N: "\<forall>n \<ge> N. \<forall>x. same_shape tree x \<longrightarrow> cancel_recursive n x tid \<noteq> None"
    by blast
  have live: "status task \<notin> set [''completed'', ''failed'', ''cancelled'']"
    using assms(3) by (auto simp: terminal_def)
  have "\<exists>tree'. cancel_task limit tree tid = Inr (True, tree')
           \<and> (\<exists>t. tasks tree' tid = Some t \<and> status t = ''cancelled'')
           \<and> (\<forall>d \<in> descendants tree tid. \<exists>t. tasks tree' d = Some t \<and> status t = ''cancelled'')"
    if "N \<le> limit" for limit
  proof -
    from N that same_shape_refl [of tree]
    obtain tree' where r: "cancel_recursive limit tree tid = Some tree'" by blast
    from assms(2) have td: "tid \<in> dom (tasks tree)" by auto
    have sub: "descendants tree tid \<subseteq> cancelled_ids tree'"
      using ids td r by (rule cancel_recursive_reaches)
    have "tid \<in> descendants tree tid" by (simp add: descendants_def)
    with sub have self: "\<exists>t. tasks tree' tid = Some t \<and> status t = ''cancelled''"
      by (auto simp: cancelled_ids_def)
    from sub have all: "\<forall>d \<in> descendants tree tid. \<exists>t. tasks tree' d = Some t \<and> status t = ''cancelled''"
      by (auto simp: cancelled_ids_def)
    from assms(2) live r have "cancel_task limit tree tid = Inr (True, tree')"
      by (simp add: cancel_task_def get_task_def)
    with self all show ?thesis by blast
  qed
  then show ?thesis by blast
qed

lemma tree_family_built:
  "snd (DelegationTree_add_task
     (snd (DelegationTree_add_task
        (snd (DelegationTree_add_task
           (snd (DelegationTree_add_task tree_empty task_P None))
           task_C (Some ''P'')))
        task_D (Some ''P'')))
     task_G (Some ''C'')) = tree_family"
  by (simp add: DelegationTree_add_task_def tree_empty_def truthy_def task_P_def task_C_def
      task_D_def task_G_def Task_init_def tree_family_def add_child_def Let_def fun_upd_twist)

lemma acyclic_by_rank:
  assumes "\<forall>(p, c) \<in> r. rank c < (rank p :: nat)"
  shows "acyclic r"
proof -
  have "r\<inverse> \<subseteq> measure rank" using assms by auto
  then have "wf (r\<inverse>)" by (rule wf_subset [OF wf_measure])
  then have "acyclic (r\<inverse>)" by (rule wf_acyclic)
  then show ?thesis by simp
qed

lemma edges_tree_family:
  "edges tree_family = {(''P'', ''C''), (''P'', ''D''), (''C'', ''G'')}"
  by (auto simp: edges_def tree_family_def split: if_splits)

lemma well_formed_tree_family: "well_formed tree_family"
proof -
  have "finite (dom (relationships tree_family))" by (simp add: tree_family_def)
  moreover have "acyclic (edges tree_family)"
    by (rule acyclic_by_rank [of _ family_rank]) (simp add: edges_tree_family family_rank_def)
  moreover have "\<forall>(p, c) \<in> edges tree_family.
      p \<in> dom (tasks tree_family) \<and> c \<in> dom (tasks tree_family)"
    by (simp add: edges_tree_family) (simp add: tree_family_def)
  ultimately show ?thesis by (simp add: well_formed_def)
qed

theorem C6_cancel_task_cascades_witness:
  "well_formed tree_family
   \<and> map_option status (tasks tree_family ''P'') = Some ''pending''
   \<and> \<not> terminal ''pending''
   \<and> ''C'' \<in> descendants tree_family ''P'' \<and> ''D'' \<in> descendants tree_family ''P''
   \<and> ''G'' \<in> descendants tree_family ''P''
   \<and> (\<exists>N. \<forall>limit \<ge> N. \<exists>tree'.
         cancel_task limit tree_family ''P'' = Inr (True, tree')
         \<and> map_option status (tasks tree' ''P'') = Some ''cancelled''
         \<and> map_option status (tasks tree' ''C'') = Some ''cancelled''
         \<and> map_option status (tasks tree' ''D'') = Some ''cancelled''
         \<and> map_option status (tasks tree' ''G'') = Some ''cancelled'')"
proof -
  let ?p = "add_child (add_child task_P ''C'') ''D''"
  have p: "tasks tree_family ''P'' = Some ?p" by (simp add: tree_family_def)
  have st: "status ?p = ''pending''" by (simp add: add_child_def task_P_def Task_init_def)
  have live: "\<not> terminal (status ?p)" unfolding st by (simp add: terminal_def)
  have e: "(''P'', ''C'') \<in> edges tree_family" "(''P'', ''D'') \<in> edges tree_family"
    "(''C'', ''G'') \<in> edges tree_family"
    by (simp_all add: edges_tree_family)
  then have c: "''C'' \<in> descendants tree_family ''P''" and d: "''D'' \<in> descendants tree_family ''P''"
    and g: "''G'' \<in> descendants tree_family ''P''"
    unfolding descendants_def by (blast intro: rtrancl_trans)+
  from C6_cancel_task_cascades [OF well_formed_tree_family p live]
  obtain N where N: "\<forall>limit \<ge> N. \<exists>tree'.
           cancel_task limit tree_family ''P'' = Inr (True, tree')
           \<and> (\<exists>t. tasks tree' ''P'' = Some t \<and> status t = ''cancelled'')
           \<and> (\<forall>d \<in> descendants tree_family ''P''.
                 \<exists>t. tasks tree' d = Some t \<and> status t = ''cancelled'')"
    by blast
  have "\<exists>tree'. cancel_task limit tree_family ''P'' = Inr (True, tree')
         \<and> map_option status (tasks tree' ''P'') = Some ''cancelled''
         \<and> map_option status (tasks tree' ''C'') = Some ''cancelled''
         \<and> map_option status (tasks tree' ''D'') = Some ''cancelled''
         \<and> map_option status (tasks tree' ''G'') = Some ''cancelled''" if "N \<le> limit" for limit
  proof -
    from N that obtain tree' where r: "cancel_task limit tree_family ''P'' = Inr (True, tree')"
      and self: "\<exists>t. tasks tree' ''P'' = Some t \<and> status t = ''cancelled''"
      and all: "\<forall>d \<in> descendants tree_family ''P''.
                 \<exists>t. tasks tree' d = Some t \<and> status t = ''cancelled''"
      by blast
    from all c d g self have "map_option status (tasks tree' ''P'') = Some ''cancelled''"
      "map_option status (tasks tree' ''C'') = Some ''cancelled''"
      "map_option status (tasks tree' ''D'') = Some ''cancelled''"
      "map_option status (tasks tree' ''G'') = Some ''cancelled''"
      by force+
    with r show ?thesis by blast
  qed
  then have "\<exists>N. \<forall>limit \<ge> N. \<exists>tree'.
         cancel_task limit tree_family ''P'' = Inr (True, tree')
         \<and> map_option status (tasks tree' ''P'') = Some ''cancelled''
         \<and> map_option status (tasks tree' ''C'') = Some ''cancelled''
         \<and> map_option status (tasks tree' ''D'') = Some ''cancelled''
         \<and> map_option status (tasks tree' ''G'') = Some ''cancelled''" by blast
  moreover have "map_option status (tasks tree_family ''P'') = Some ''pending''"
    using p st by simp
  moreover have "\<not> terminal ''pending''" by (simp add: terminal_def)
  ultimately show ?thesis using well_formed_tree_family c d g by blast
qed


end
